theory Spec2Isabelle
  imports Main "HOL-Library.AList" "HOL-Library.Sublist"
begin

section \<open>Positions, ranges and symbol types (stibium/types.py)\<close>

text \<open>
  \<^verbatim>\<open>SrcPosition\<close> is a 1-based (line, column) pair of Python integers; \<^verbatim>\<open>SrcRange\<close> is a
  pair of positions whose end is exclusive.  The field \<^verbatim>\<open>end\<close> is written \<open>end_pos\<close>.
\<close>

datatype SrcPosition = SrcPosition (line: int) (column: int)

datatype SrcRange = SrcRange (start: SrcPosition) (end_pos: SrcPosition)

text \<open>The comparison methods \<^verbatim>\<open>__ge__\<close> and \<^verbatim>\<open>__lt__\<close> of \<^verbatim>\<open>SrcPosition\<close>.\<close>

definition pos_ge :: "SrcPosition \<Rightarrow> SrcPosition \<Rightarrow> bool" where
  "pos_ge self other =
     (if line self > line other then True
      else if line self = line other then column self \<ge> column other
      else False)"

definition pos_lt :: "SrcPosition \<Rightarrow> SrcPosition \<Rightarrow> bool" where
  "pos_lt self other =
     (if line self < line other then True
      else if line self = line other then column self < column other
      else False)"

datatype SymbolType =
    Unknown
  | Variable | Submodel | Model | Function | Unit
  | Parameter
  | Species | Compartment | Reaction | Event | Constraint

text \<open>
  \<^verbatim>\<open>SymbolType.derives_from\<close>.  The tuple \<^verbatim>\<open>derives_from_param\<close> of the source lists
  Species, Compartment, Reaction and Constraint; Event is not in it.
\<close>

definition derives_from_param :: "SymbolType \<Rightarrow> bool" where
  "derives_from_param self = (self \<in> set [Species, Compartment, Reaction, Constraint])"

definition derives_from :: "SymbolType \<Rightarrow> SymbolType \<Rightarrow> bool" where
  "derives_from self other =
     (if self = other then True
      else if other = Unknown then True
      else if other = Variable then derives_from_param self \<or> self = Parameter
      else if other = Parameter then derives_from_param self
      else False)"

section \<open>Issues (stibium/types.py)\<close>

text \<open>
  The \<^verbatim>\<open>Issue\<close> subclasses, with the arguments of their constructors.  The range an
  issue is filed under (\<^verbatim>\<open>Issue.range\<close>) is what each constructor hands to
  \<^verbatim>\<open>super().__init__\<close>.
\<close>

datatype Issue =
    UnexpectedTokenIssue SrcRange string
  | UnexpectedEOFIssue SrcRange
  | UnexpectedNewlineIssue SrcPosition
  | IncompatibleType SymbolType SrcRange SymbolType SrcRange
  | ObscuredDeclaration SrcRange SrcRange string
  | ObscuredValue SrcRange SrcRange string

datatype IssueSeverity = Error | Warning

text \<open>The severity that each constructor hands to \<^verbatim>\<open>super().__init__\<close>.\<close>

fun issue_severity :: "Issue \<Rightarrow> IssueSeverity" where
  "issue_severity (UnexpectedTokenIssue leaf_range leaf_name) = Error"
| "issue_severity (UnexpectedEOFIssue last_leaf_range) = Error"
| "issue_severity (UnexpectedNewlineIssue leaf_pos) = Error"
| "issue_severity (IncompatibleType old_type old_range new_type new_range) = Error"
| "issue_severity (ObscuredDeclaration old_range new_range n) = Warning"
| "issue_severity (ObscuredValue old_range new_range n) = Warning"

fun issue_range :: "Issue \<Rightarrow> SrcRange" where
  "issue_range (UnexpectedTokenIssue leaf_range leaf_name) = leaf_range"
| "issue_range (UnexpectedEOFIssue last_leaf_range) = last_leaf_range"
| "issue_range (UnexpectedNewlineIssue leaf_pos) =
     SrcRange leaf_pos (SrcPosition (line leaf_pos + 1) 1)"
| "issue_range (IncompatibleType old_type old_range new_type new_range) = new_range"
| "issue_range (ObscuredDeclaration old_range new_range n) = old_range"
| "issue_range (ObscuredValue old_range new_range n) = old_range"

section \<open>The typed syntax tree (stibium/ant\_types.py)\<close>

text \<open>
  A node is a leaf or a trunk; its class is a tag.  The classes \<^verbatim>\<open>Species\<close>,
  \<^verbatim>\<open>Reaction\<close>, \<^verbatim>\<open>Model\<close> and \<^verbatim>\<open>Function\<close> share their names with symbol
  types and are written with the suffix \<open>Node\<close>.

  A leaf is a Python object: \<open>leaf_id\<close> is its identity.  Its fields \<^verbatim>\<open>range\<close> and
  \<^verbatim>\<open>text\<close> are never assigned after construction and are kept in the node; its fields
  \<^verbatim>\<open>prev\<close> and \<^verbatim>\<open>next\<close> are assigned by \<^verbatim>\<open>set_leaf_pointers\<close> and are kept in a
  store indexed by the identity (see below).  A child slot may hold \<^verbatim>\<open>None\<close>.
\<close>

datatype LeafKind =
    Name | Number | Operator | Keyword | StringLiteral | Newline | ErrorToken
  | VarModifier | TypeModifier

datatype TrunkKind =
    ErrorNode | Sum | Product | Power | Atom | VarName | InComp | NameMaybeIn
  | SpeciesNode | ReactionName | SpeciesList | ReactionNode | Assignment
  | DeclModifiers | DeclAssignment | DeclItem | Declaration | Annotation
  | SimpleStmt | ModelNode | FunctionNode | FileNode

datatype LeafNode =
  LeafNode (leaf_id: nat) (leaf_kind: LeafKind) (leaf_range: SrcRange) (leaf_text: string)

datatype TreeNode =
    Leaf LeafNode
  | Trunk TrunkKind SrcRange "TreeNode option list"

fun node_range :: "TreeNode \<Rightarrow> SrcRange" where
  "node_range (Leaf l) = leaf_range l"
| "node_range (Trunk k r ch) = r"

datatype error =
  AssertionError | AttributeError | KeyError | IndexError | ValueError | TypeError

text \<open>\<^verbatim>\<open>node.text\<close>: only a leaf has the attribute.\<close>

fun node_text :: "TreeNode \<Rightarrow> error + string" where
  "node_text (Leaf l) = Inr (leaf_text l)"
| "node_text (Trunk k r ch) = Inl AttributeError"

section \<open>Scopes, symbols and the symbol table (stibium/symbols.py)\<close>

datatype Scope = BaseScope | ModelScope string | FunctionScope string

text \<open>
  \<^verbatim>\<open>QName\<close> pairs a scope with a name node.  The dataclass does not check its fields:
  callers can hand it \<^verbatim>\<open>None\<close> or a trunk, so the field is an optional node.
\<close>

datatype QName = QName (scope: Scope) (qname_name: "TreeNode option")

record Symbol =
  name :: string
  type :: SymbolType
  type_name :: LeafNode
  decl_name :: "LeafNode option"
  decl_node :: "TreeNode option"
  value_node :: "TreeNode option"
  annotations :: "TreeNode list"

text \<open>\<^verbatim>\<open>VarSymbol(name, typ, type_name)\<close>: the other fields take their defaults.\<close>

definition VarSymbol :: "string \<Rightarrow> SymbolType \<Rightarrow> LeafNode \<Rightarrow> Symbol" where
  "VarSymbol n typ tn =
     \<lparr>name = n, type = typ, type_name = tn, decl_name = None, decl_node = None,
      value_node = None, annotations = []\<rparr>"

text \<open>
  The table is a \<^verbatim>\<open>defaultdict(dict)\<close>: Python dictionaries keep their keys in insertion
  order, so both levels are association lists, read with \<open>map_of\<close> and written with
  \<open>AList.update\<close> (an existing key keeps its place, a new key goes last).  The fields
  \<^verbatim>\<open>_table\<close>, \<^verbatim>\<open>_issues\<close> and \<^verbatim>\<open>_qnames\<close> are written without the underscore.
\<close>

record SymbolTable =
  table :: "(Scope \<times> (string \<times> Symbol) list) list"
  issues :: "Issue list"
  qnames :: "QName list"

definition SymbolTable_init :: SymbolTable where
  "SymbolTable_init = \<lparr>table = [], issues = [], qnames = []\<rparr>"

text \<open>
  \<^verbatim>\<open>_leaf_table\<close>: reading a missing key of a \<^verbatim>\<open>defaultdict\<close> stores an empty
  dictionary under it, so the table is returned too.
\<close>

definition leaf_table :: "SymbolTable \<Rightarrow> Scope \<Rightarrow> (string \<times> Symbol) list \<times> SymbolTable" where
  "leaf_table self sc =
     (case map_of (table self) sc of
        Some d \<Rightarrow> (d, self)
      | None \<Rightarrow> ([], self\<lparr>table := table self @ [(sc, [])]\<rparr>))"

text \<open>
  Writing a symbol object into the dictionary of a scope.  The dictionaries and the
  symbols are shared mutable objects in the source; here the changed symbol is written
  back under its key.
\<close>

definition store_symbol :: "SymbolTable \<Rightarrow> Scope \<Rightarrow> string \<Rightarrow> Symbol \<Rightarrow> SymbolTable" where
  "store_symbol self sc n symb =
     self\<lparr>table := AList.update sc
        (AList.update n symb (case map_of (table self) sc of Some d \<Rightarrow> d | None \<Rightarrow> []))
        (table self)\<rparr>"

definition get_all_names :: "SymbolTable \<Rightarrow> string set" where
  "get_all_names self = set (concat (map (\<lambda>(sc, d). map fst d) (table self)))"

definition get_all_qnames :: "SymbolTable \<Rightarrow> QName list" where
  "get_all_qnames self = qnames self"

text \<open>\<^verbatim>\<open>SymbolTable.get\<close>: a list of zero or one symbol.\<close>

definition SymbolTable_get :: "SymbolTable \<Rightarrow> QName \<Rightarrow> error + (Symbol list \<times> SymbolTable)" where
  "SymbolTable_get self qname =
     (let (d, self1) = leaf_table self (scope qname) in
      case qname_name qname of
        None \<Rightarrow> Inl AttributeError
      | Some qn \<Rightarrow>
          (case node_text qn of
             Inl e \<Rightarrow> Inl e
           | Inr n \<Rightarrow>
               (case map_of d n of
                  Some symb \<Rightarrow> Inr ([symb], self1)
                | None \<Rightarrow> Inr ([], self1))))"

text \<open>
  \<^verbatim>\<open>SymbolTable.insert\<close>.  The type comparison either ends the call with an
  \<^verbatim>\<open>IncompatibleType\<close> issue (the early \<^verbatim>\<open>return\<close>) or yields the symbol to go on
  with; the declaration and value updates follow.
\<close>

definition SymbolTable_insert ::
  "SymbolTable \<Rightarrow> QName \<Rightarrow> SymbolType \<Rightarrow> TreeNode option \<Rightarrow> TreeNode option
     \<Rightarrow> error + SymbolTable" where
  "SymbolTable_insert self qname typ decl_nd value_nd =
     (case qname_name qname of
        None \<Rightarrow> Inl AssertionError
      | Some qn \<Rightarrow>
          (let self1 = self\<lparr>qnames := qnames self @ [qname]\<rparr>;
               (d, self2) = leaf_table self1 (scope qname)
           in case qn of
                Trunk k r ch \<Rightarrow> Inl AttributeError
              | Leaf lf \<Rightarrow>
                  (let n = leaf_text lf in
                   case (case map_of d n of
                           None \<Rightarrow> Inr (VarSymbol n typ lf)
                         | Some symb \<Rightarrow>
                             (let old_type = type symb in
                              if derives_from typ old_type
                              then Inr (symb\<lparr>type := typ, type_name := lf\<rparr>)
                              else if derives_from old_type typ
                              then Inr symb
                              else Inl (IncompatibleType old_type (leaf_range (type_name symb))
                                          typ (leaf_range lf)))) of
                     Inl issue \<Rightarrow> Inr (self2\<lparr>issues := issues self2 @ [issue]\<rparr>)
                   | Inr symb \<Rightarrow>
                       (let symb1 = (case decl_nd of
                                      None \<Rightarrow> symb
                                    | Some dn \<Rightarrow> symb\<lparr>decl_node := Some dn, decl_name := Some lf\<rparr>);
                            self3 = (case value_nd of
                                       None \<Rightarrow> self2
                                     | Some vn \<Rightarrow>
                                         (case value_node symb1 of
                                            None \<Rightarrow> self2
                                          | Some old \<Rightarrow>
                                              self2\<lparr>issues := issues self2 @
                                                [ObscuredValue (node_range old) (node_range vn) n]\<rparr>));
                            symb2 = (case value_nd of
                                      None \<Rightarrow> symb1
                                    | Some vn \<Rightarrow> symb1\<lparr>value_node := Some vn\<rparr>)
                        in Inr (store_symbol self3 (scope qname) n symb2)))))"

text \<open>\<^verbatim>\<open>SymbolTable.insert_annotation\<close>.\<close>

definition insert_annotation :: "SymbolTable \<Rightarrow> QName \<Rightarrow> TreeNode \<Rightarrow> error + SymbolTable" where
  "insert_annotation self qname node =
     (let (d, self1) = leaf_table self (scope qname) in
      case qname_name qname of
        None \<Rightarrow> Inl AttributeError
      | Some qn \<Rightarrow>
          (case qn of
             Trunk k r ch \<Rightarrow> Inl AttributeError
           | Leaf lf \<Rightarrow>
               (let n = leaf_text lf;
                    symb = (case map_of d n of
                             None \<Rightarrow> VarSymbol n Unknown lf
                           | Some s \<Rightarrow> s)
                in Inr (store_symbol self1 (scope qname) n
                          (symb\<lparr>annotations := annotations symb @ [node]\<rparr>)))))"

text \<open>Looking a symbol up in the table, without touching the table.\<close>

definition lookup :: "SymbolTable \<Rightarrow> Scope \<Rightarrow> string \<Rightarrow> Symbol option" where
  "lookup self sc n = (case map_of (table self) sc of None \<Rightarrow> None | Some d \<Rightarrow> map_of d n)"

text \<open>The issues that a value node adds when it replaces an earlier one.\<close>

definition obscured :: "TreeNode option \<Rightarrow> TreeNode option \<Rightarrow> string \<Rightarrow> Issue list" where
  "obscured old new n =
     (case new of None \<Rightarrow> []
      | Some vn \<Rightarrow> (case old of None \<Rightarrow> [] | Some ov \<Rightarrow> [ObscuredValue (node_range ov) (node_range vn) n]))"

fun is_IncompatibleType :: "Issue \<Rightarrow> bool" where
  "is_IncompatibleType (IncompatibleType a b c d) = True"
| "is_IncompatibleType _ = False"


text \<open>Two occurrences of the name \<^verbatim>\<open>A\<close>, and the table after inserting the first as a Species.\<close>


definition ex_A1 :: LeafNode where
  "ex_A1 = LeafNode 0 Name (SrcRange (SrcPosition 1 1) (SrcPosition 1 2)) ''A''"

definition ex_A2 :: LeafNode where
  "ex_A2 = LeafNode 1 Name (SrcRange (SrcPosition 2 1) (SrcPosition 2 2)) ''A''"

definition ex_table_A :: SymbolTable where
  "ex_table_A =
     \<lparr>table = [(BaseScope, [(''A'', VarSymbol ''A'' Species ex_A1)])], issues = [],
      qnames = [QName BaseScope (Some (Leaf ex_A1))]\<rparr>"




text \<open>
  \<^verbatim>\<open>get_unique_name\<close>.  \<^verbatim>\<open>'{}{}'.format(prefix, i)\<close> appends the decimal numeral of
  the counter to the prefix.  The loop \<^verbatim>\<open>while True\<close> ends because the numerals of
  different numbers differ and the names are finitely many; the set of names is handed
  to the loop as the list of its elements.
\<close>

definition digit_char :: "nat \<Rightarrow> char" where
  "digit_char d = ''0123456789'' ! d"

fun str_nat :: "nat \<Rightarrow> string" where
  "str_nat n = (if n < 10 then [digit_char n] else str_nat (n div 10) @ [digit_char (n mod 10)])"

definition format_name :: "string \<Rightarrow> nat \<Rightarrow> string" where
  "format_name prfx i = prfx @ str_nat i"

declare str_nat.simps [simp del]

lemma digit_char_inj: "a < 10 \<Longrightarrow> b < 10 \<Longrightarrow> digit_char a = digit_char b \<Longrightarrow> a = b"
proof -
  assume a: "a < 10" and b: "b < 10" and e: "digit_char a = digit_char b"
  have d: "distinct ''0123456789''" by simp
  have l: "length ''0123456789'' = 10" by simp
  from nth_eq_iff_index_eq [OF d, of a b] a b e l show "a = b"
    by (simp add: digit_char_def)
qed

lemma str_nat_nonempty: "str_nat n \<noteq> []"
  by (subst str_nat.simps) simp

lemma str_nat_inj: "str_nat n = str_nat m \<Longrightarrow> n = m"
proof (induction n arbitrary: m rule: str_nat.induct)
  case (1 n)
  show ?case
  proof (cases "n < 10")
    case True
    then have n: "str_nat n = [digit_char n]" by (subst str_nat.simps) simp
    show ?thesis
    proof (cases "m < 10")
      case True
      then have "str_nat m = [digit_char m]" by (subst str_nat.simps) simp
      with n "1.prems" have "digit_char n = digit_char m" by simp
      with \<open>n < 10\<close> \<open>m < 10\<close> show ?thesis by (rule digit_char_inj)
    next
      case False
      then have "str_nat m = str_nat (m div 10) @ [digit_char (m mod 10)]"
        by (subst str_nat.simps) simp
      with n "1.prems" have "str_nat (m div 10) = []" by simp
      with str_nat_nonempty show ?thesis by blast
    qed
  next
    case False
    then have n: "str_nat n = str_nat (n div 10) @ [digit_char (n mod 10)]"
      by (subst str_nat.simps) simp
    show ?thesis
    proof (cases "m < 10")
      case True
      then have "str_nat m = [digit_char m]" by (subst str_nat.simps) simp
      with n "1.prems" have "str_nat (n div 10) = []" by simp
      with str_nat_nonempty show ?thesis by blast
    next
      case m: False
      then have "str_nat m = str_nat (m div 10) @ [digit_char (m mod 10)]"
        by (subst str_nat.simps) simp
      with n "1.prems" have e: "str_nat (n div 10) = str_nat (m div 10)"
        and d: "digit_char (n mod 10) = digit_char (m mod 10)" by simp_all
      from "1.IH" [OF False e] have q: "n div 10 = m div 10" .
      from digit_char_inj [OF _ _ d] have r: "n mod 10 = m mod 10" by simp
      from q r show ?thesis by (metis div_mult_mod_eq)
    qed
  qed
qed

lemma format_name_inj: "inj (format_name prfx)"
  by (rule injI) (simp add: format_name_def str_nat_inj)

lemma finite_taken: "finite {j. format_name prfx j \<in> set names}"
proof -
  have "finite (format_name prfx -` set names)"
    by (rule finite_vimageI) (simp_all add: format_name_inj)
  then show ?thesis by (simp add: vimage_def)
qed

function probe :: "string \<Rightarrow> string list \<Rightarrow> nat \<Rightarrow> string" where
  "probe prfx names i =
     (let n = format_name prfx i in
      if n \<notin> set names then n else probe prfx names (i + 1))"
  by pat_completeness auto
termination
proof (relation "measure (\<lambda>(prfx, names, i). Suc (Max {j. format_name prfx j \<in> set names}) - i)")
  show "wf (measure (\<lambda>(prfx, names, i). Suc (Max {j. format_name prfx j \<in> set names}) - i))"
    by simp
next
  fix prfx :: string and names :: "string list" and i :: nat and x :: string
  assume "x = format_name prfx i" and "\<not> x \<notin> set names"
  then have "i \<in> {j. format_name prfx j \<in> set names}" by simp
  then have "i \<le> Max {j. format_name prfx j \<in> set names}"
    using finite_taken by (rule_tac Max_ge) auto
  then show "((prfx, names, i + 1), prfx, names, i)
      \<in> measure (\<lambda>(prfx, names, i). Suc (Max {j. format_name prfx j \<in> set names}) - i)"
    by simp
qed

declare probe.simps [simp del]

text \<open>The names of all scopes, as \<^verbatim>\<open>get_all_names\<close> collects them.\<close>

definition all_names :: "SymbolTable \<Rightarrow> string list" where
  "all_names self = concat (map (\<lambda>(sc, d). map fst d) (table self))"

lemma get_all_names_list: "get_all_names self = set (all_names self)"
  by (simp add: get_all_names_def all_names_def)

text \<open>
  With no scope the names of every scope are excluded, with a scope the keys of its
  dictionary.  The table is returned too, since \<^verbatim>\<open>_leaf_table\<close> may add a key to it.
\<close>

definition get_unique_name :: "SymbolTable \<Rightarrow> string \<Rightarrow> Scope option \<Rightarrow> string \<times> SymbolTable" where
  "get_unique_name self prfx sc =
     (case sc of
        None \<Rightarrow> (probe prfx (all_names self) 0, self)
      | Some s \<Rightarrow> (let (d, self1) = leaf_table self s in (probe prfx (map fst d) 0, self1)))"


text \<open>A table whose names are \<^verbatim>\<open>k0\<close> and \<^verbatim>\<open>k1\<close>.\<close>

definition ex_table_k :: SymbolTable where
  "ex_table_k =
     \<lparr>table = [(BaseScope,
          [(''k0'', VarSymbol ''k0'' Parameter
              (LeafNode 0 Name (SrcRange (SrcPosition 1 1) (SrcPosition 1 3)) ''k0'')),
           (''k1'', VarSymbol ''k1'' Parameter
              (LeafNode 1 Name (SrcRange (SrcPosition 2 1) (SrcPosition 2 3)) ''k1''))])],
      issues = [], qnames = []\<rparr>"




section \<open>Leaf links, the last leaf and the syntax issues\<close>

text \<open>
  The fields \<^verbatim>\<open>prev\<close> and \<^verbatim>\<open>next\<close> of the leaf objects, indexed by the identity of
  the leaf.  A new leaf has \<^verbatim>\<open>None\<close> in both.
\<close>

record Links =
  prev_ptr :: "nat \<Rightarrow> LeafNode option"
  next_ptr :: "nat \<Rightarrow> LeafNode option"

definition Links_init :: Links where
  "Links_init = \<lparr>prev_ptr = (\<lambda>i. None), next_ptr = (\<lambda>i. None)\<rparr>"

text \<open>
  \<^verbatim>\<open>TrunkNode.last_leaf\<close>: the children are visited in reverse; the first leaf met, or
  the first last leaf found in a trunk child, is returned.
\<close>

lemma size_list_rev: "size_list f (rev xs) = size_list f xs"
  by (induction xs) (simp_all add: size_list_append)

function last_leaf :: "TreeNode \<Rightarrow> LeafNode option"
  and last_leaf_loop :: "TreeNode option list \<Rightarrow> LeafNode option" where
  "last_leaf (Trunk k r ch) = last_leaf_loop (rev ch)"
| "last_leaf (Leaf l) = None"
| "last_leaf_loop [] = None"
| "last_leaf_loop (None # cs) = last_leaf_loop cs"
| "last_leaf_loop (Some (Leaf l) # cs) = Some l"
| "last_leaf_loop (Some (Trunk k r ch) # cs) =
     (case last_leaf (Trunk k r ch) of
        Some ret \<Rightarrow> Some ret
      | None \<Rightarrow> last_leaf_loop cs)"
  by pat_completeness auto
termination
  by (relation "measure (\<lambda>x. case x of
          Inl t \<Rightarrow> 2 * size t
        | Inr cs \<Rightarrow> 2 * size_list (size_option size) cs + 1)")
     (simp_all add: size_list_rev)

text \<open>
  \<^verbatim>\<open>node.text.strip() == ''\<close> holds when every character of the text is white space.
  A character of a text is its code point, and the texts of the model hold code points
  below 256.  Among these Python's \<^verbatim>\<open>str.strip\<close> takes for white space the code
  points 9 to 13, 28 to 32, 133 (U+0085) and 160 (U+00A0).
\<close>

definition is_space :: "char \<Rightarrow> bool" where
  "is_space c = (of_char c \<in> set [9, 10, 11, 12, 13, 28, 29, 30, 31, 32, 133, 160 :: nat])"

definition strip_empty :: "string \<Rightarrow> bool" where
  "strip_empty t = list_all is_space t"

text \<open>
  \<^verbatim>\<open>_record_syntax_issues\<close>.  The body of the loop first computes the variable
  \<^verbatim>\<open>issue\<close> from the node (\<open>syntax_issue\<close>), then records it unless its line is in
  \<^verbatim>\<open>lines\<close> (\<open>record_loop\<close>).
\<close>

definition syntax_issue :: "Links \<Rightarrow> TreeNode \<Rightarrow> Issue option" where
  "syntax_issue h node =
     (case node of
        Leaf l \<Rightarrow>
          if leaf_kind l = ErrorToken
          then (if strip_empty (leaf_text l)
                then Some (UnexpectedNewlineIssue (start (leaf_range l)))
                else Some (UnexpectedTokenIssue (leaf_range l) (leaf_text l)))
          else None
      | Trunk k r ch \<Rightarrow>
          if k = ErrorNode
          then (case last_leaf (Trunk k r ch) of
                  None \<Rightarrow> None
                | Some ll \<Rightarrow>
                    if next_ptr h (leaf_id ll) = None
                    then Some (UnexpectedEOFIssue (leaf_range ll))
                    else None)
          else None)"

definition issue_line :: "Issue \<Rightarrow> int" where
  "issue_line issue = line (start (issue_range issue))"

fun record_loop :: "Links \<Rightarrow> TreeNode option list \<Rightarrow> int set \<Rightarrow> Issue list \<Rightarrow> Issue list" where
  "record_loop h [] lines acc = acc"
| "record_loop h (None # ns) lines acc = record_loop h ns lines acc"
| "record_loop h (Some node # ns) lines acc =
     (case syntax_issue h node of
        None \<Rightarrow> record_loop h ns lines acc
      | Some issue \<Rightarrow>
          if issue_line issue \<notin> lines
          then record_loop h ns (insert (issue_line issue) lines) (acc @ [issue])
          else record_loop h ns lines acc)"

fun node_children :: "TreeNode \<Rightarrow> error + TreeNode option list" where
  "node_children (Trunk k r ch) = Inr ch"
| "node_children (Leaf l) = Inl AttributeError"

definition record_syntax_issues :: "Links \<Rightarrow> TreeNode \<Rightarrow> error + Issue list" where
  "record_syntax_issues h root =
     (case node_children root of
        Inl e \<Rightarrow> Inl e
      | Inr ch \<Rightarrow> Inr (record_loop h ch {} []))"


text \<open>
  The issues that the children signal, in order, before the one-per-line rule is applied:
  the reference the recorded list is compared with.
\<close>

definition candidates :: "Links \<Rightarrow> TreeNode option list \<Rightarrow> Issue list" where
  "candidates h ns = List.map_filter (\<lambda>c. case c of None \<Rightarrow> None | Some n \<Rightarrow> syntax_issue h n) ns"




section \<open>The tree builder (stibium/tree\_builder.py)\<close>

text \<open>
  The tree of the external parser: a token has a type and a value, a tree has a rule name
  and children, which may be \<^verbatim>\<open>None\<close>.  The last field is what the functions
  \<^verbatim>\<open>get_token_range\<close> and \<^verbatim>\<open>get_tree_range\<close> of \<^verbatim>\<open>stibium.utils\<close> read; that module
  is not among the sources, so the two functions are parameters of \<open>transform_tree\<close>.
\<close>

datatype 'p Lark =
    Token string string 'p
  | Tree string "'p Lark option list" 'p

datatype NodeClass = LeafClass LeafKind | TrunkClass TrunkKind

text \<open>
  \<^verbatim>\<open>TREE_MAP\<close>, with the entries that the two loops over \<^verbatim>\<open>OPERATORS\<close> and
  \<^verbatim>\<open>KEYWORDS\<close> add.  The keys that the loops write again map to the class they had.
\<close>

definition TREE_MAP :: "string \<Rightarrow> NodeClass option" where
  "TREE_MAP = map_of
     [(''NAME'', LeafClass Name),
      (''NUMBER'', LeafClass Number),
      (''NEWLINE'', LeafClass Newline),
      (''ERROR_TOKEN'', LeafClass ErrorToken),
      (''VAR_MODIFIER'', LeafClass VarModifier),
      (''TYPE_MODIFIER'', LeafClass TypeModifier),
      (''ESCAPED_STRING'', LeafClass StringLiteral),
      (''ANNOT_KEYWORD'', LeafClass Keyword),
      (''SEMICOLON'', LeafClass Operator),
      (''error_node'', TrunkClass ErrorNode),
      (''root'', TrunkClass FileNode),
      (''simple_stmt'', TrunkClass SimpleStmt),
      (''var_name'', TrunkClass VarName),
      (''in_comp'', TrunkClass InComp),
      (''namemaybein'', TrunkClass NameMaybeIn),
      (''reaction_name'', TrunkClass ReactionName),
      (''reaction'', TrunkClass ReactionNode),
      (''species'', TrunkClass SpeciesNode),
      (''species_list'', TrunkClass SpeciesList),
      (''assignment'', TrunkClass Assignment),
      (''declaration'', TrunkClass Declaration),
      (''decl_item'', TrunkClass DeclItem),
      (''decl_assignment'', TrunkClass DeclAssignment),
      (''decl_modifiers'', TrunkClass DeclModifiers),
      (''annotation'', TrunkClass Annotation),
      (''sum'', TrunkClass Sum),
      (''product'', TrunkClass Product),
      (''power'', TrunkClass Power),
      (''atom'', TrunkClass Atom),
      (''EQUAL'', LeafClass Operator),
      (''COLON'', LeafClass Operator),
      (''ARROW'', LeafClass Operator),
      (''LPAR'', LeafClass Operator),
      (''RPAR'', LeafClass Operator),
      (''STAR'', LeafClass Operator),
      (''PLUS'', LeafClass Operator),
      (''MINUS'', LeafClass Operator),
      (''DOLLAR'', LeafClass Operator),
      (''CIRCUMFLEX'', LeafClass Operator),
      (''COMMA'', LeafClass Operator),
      (''SLASH'', LeafClass Operator),
      (''IN'', LeafClass Keyword)]"

text \<open>
  The loop that normalises the children of \<^verbatim>\<open>DeclModifiers\<close> to the pair
  \<^verbatim>\<open>(var_mod, type_mod)\<close>.
\<close>

fun is_VarModifier :: "TreeNode option \<Rightarrow> bool" where
  "is_VarModifier (Some (Leaf l)) = (leaf_kind l = VarModifier)"
| "is_VarModifier _ = False"

fun decl_modifiers_loop ::
  "TreeNode option list \<Rightarrow> TreeNode option \<Rightarrow> TreeNode option \<Rightarrow> TreeNode option list" where
  "decl_modifiers_loop [] var_mod type_mod = [var_mod, type_mod]"
| "decl_modifiers_loop (child # cs) var_mod type_mod =
     (if is_VarModifier child then decl_modifiers_loop cs child type_mod
      else decl_modifiers_loop cs var_mod child)"


text \<open>
  \<^verbatim>\<open>transform_tree\<close>.  Every leaf it builds is a new object: its identity is taken from
  a counter that is threaded through the calls.  A missing key of \<^verbatim>\<open>TREE_MAP\<close> raises
  \<^verbatim>\<open>KeyError\<close>.  Terminal names of the parser are upper-case and rule names lower-case,
  so a token is never mapped to a trunk class nor a tree to a leaf class; the model
  answers \<open>TypeError\<close> there.
\<close>

function transform_tree ::
    "('p \<Rightarrow> SrcRange) \<Rightarrow> ('p \<Rightarrow> SrcRange) \<Rightarrow> nat \<Rightarrow> 'p Lark option
       \<Rightarrow> error + (TreeNode option \<times> nat)"
  and transform_children ::
    "('p \<Rightarrow> SrcRange) \<Rightarrow> ('p \<Rightarrow> SrcRange) \<Rightarrow> nat \<Rightarrow> 'p Lark option list
       \<Rightarrow> error + (TreeNode option list \<times> nat)" where
  "transform_tree get_token_range get_tree_range n None = Inr (None, n)"
| "transform_tree get_token_range get_tree_range n (Some (Token ty v p)) =
     (case TREE_MAP ty of
        None \<Rightarrow> Inl KeyError
      | Some (TrunkClass k) \<Rightarrow> Inl TypeError
      | Some (LeafClass k) \<Rightarrow> Inr (Some (Leaf (LeafNode n k (get_token_range p) v)), n + 1))"
| "transform_tree get_token_range get_tree_range n (Some (Tree d ch p)) =
     (case TREE_MAP d of
        None \<Rightarrow> Inl KeyError
      | Some (LeafClass k) \<Rightarrow> Inl TypeError
      | Some (TrunkClass k) \<Rightarrow>
          (case transform_children get_token_range get_tree_range n ch of
             Inl e \<Rightarrow> Inl e
           | Inr (children, n1) \<Rightarrow>
               Inr (Some (Trunk k (get_tree_range p)
                            (if k = DeclModifiers then decl_modifiers_loop children None None
                             else children)), n1)))"
| "transform_children get_token_range get_tree_range n [] = Inr ([], n)"
| "transform_children get_token_range get_tree_range n (c # cs) =
     (case transform_tree get_token_range get_tree_range n c of
        Inl e \<Rightarrow> Inl e
      | Inr (c', n1) \<Rightarrow>
          (case transform_children get_token_range get_tree_range n1 cs of
             Inl e \<Rightarrow> Inl e
           | Inr (cs', n2) \<Rightarrow> Inr (c' # cs', n2)))"
  by pat_completeness auto
termination
  by (relation "measure (\<lambda>x. case x of
          Inl (f, g, n, t) \<Rightarrow> size_option (size_Lark (\<lambda>_. 0)) t
        | Inr (f, g, n, cs) \<Rightarrow> size_list (size_option (size_Lark (\<lambda>_. 0))) cs)")
     simp_all

text \<open>
  \<^verbatim>\<open>set_leaf_pointers\<close>; the argument \<^verbatim>\<open>last\<close> is written \<open>last0\<close>.  The loop over
  the children keeps the old \<^verbatim>\<open>last\<close> when a child returns \<^verbatim>\<open>None\<close>.
\<close>

function set_leaf_pointers ::
    "TreeNode option \<Rightarrow> LeafNode option \<Rightarrow> Links \<Rightarrow> LeafNode option \<times> Links"
  and set_leaf_pointers_loop ::
    "TreeNode option list \<Rightarrow> LeafNode option \<Rightarrow> Links \<Rightarrow> LeafNode option \<times> Links" where
  "set_leaf_pointers None last0 h = (None, h)"
| "set_leaf_pointers (Some (Leaf root)) last0 h =
     (let h1 = h\<lparr>prev_ptr := (prev_ptr h)(leaf_id root := last0)\<rparr>;
          h2 = (case last0 of
                  None \<Rightarrow> h1
                | Some l \<Rightarrow> h1\<lparr>next_ptr := (next_ptr h1)(leaf_id l := Some root)\<rparr>)
      in (Some root, h2))"
| "set_leaf_pointers (Some (Trunk k r ch)) last0 h = set_leaf_pointers_loop ch last0 h"
| "set_leaf_pointers_loop [] last0 h = (last0, h)"
| "set_leaf_pointers_loop (child # cs) last0 h =
     (let (res, h1) = set_leaf_pointers child last0 h;
          last1 = (case res of Some l \<Rightarrow> Some l | None \<Rightarrow> last0)
      in set_leaf_pointers_loop cs last1 h1)"
  by pat_completeness auto
termination
  by (relation "measure (\<lambda>x. case x of
          Inl (t, l, h) \<Rightarrow> size_option size t
        | Inr (cs, l, h) \<Rightarrow> size_list (size_option size) cs)")
     simp_all


text \<open>\<^verbatim>\<open>_scan_leaves\<close>: the leaves below a node, from left to right.\<close>

function scan_leaves :: "TreeNode \<Rightarrow> LeafNode list"
  and scan_leaves_loop :: "TreeNode option list \<Rightarrow> LeafNode list" where
  "scan_leaves (Leaf l) = [l]"
| "scan_leaves (Trunk k r ch) = scan_leaves_loop ch"
| "scan_leaves_loop [] = []"
| "scan_leaves_loop (None # cs) = scan_leaves_loop cs"
| "scan_leaves_loop (Some child # cs) = scan_leaves child @ scan_leaves_loop cs"
  by pat_completeness auto
termination
  by (relation "measure (\<lambda>x. case x of
          Inl t \<Rightarrow> size t
        | Inr cs \<Rightarrow> size_list (size_option size) cs)")
     simp_all

text \<open>
  Following a pointer field from a leaf until it is \<^verbatim>\<open>None\<close>, collecting the leaves
  met.  The walk need not end (the pointers may form a cycle), hence the option.
\<close>

partial_function (option) walk :: "(nat \<Rightarrow> LeafNode option) \<Rightarrow> LeafNode \<Rightarrow> LeafNode list option" where
  "walk f l =
     (case f (leaf_id l) of
        None \<Rightarrow> Some [l]
      | Some l' \<Rightarrow> Option.bind (walk f l') (\<lambda>xs. Some (l # xs)))"


text \<open>
  Threading the pointers through a list of leaves, one call of \<open>set_leaf_pointers\<close> per
  leaf: what the traversal of a tree amounts to.
\<close>

fun link :: "LeafNode list \<Rightarrow> LeafNode option \<Rightarrow> Links \<Rightarrow> LeafNode option \<times> Links" where
  "link [] last0 h = (last0, h)"
| "link (l # ls) last0 h = link ls (Some l) (snd (set_leaf_pointers (Some (Leaf l)) last0 h))"


fun opt_leaves :: "TreeNode option \<Rightarrow> LeafNode list" where
  "opt_leaves None = []"
| "opt_leaves (Some t) = scan_leaves t"


fun opt_list :: "LeafNode option \<Rightarrow> LeafNode list" where
  "opt_list None = []"
| "opt_list (Some l) = [l]"


section \<open>Example trees\<close>

text \<open>
  The text \<^verbatim>\<open>a =\<close>, which ends in the middle of an assignment, and the text
  \<^verbatim>\<open>? a =\<close>, where an unexpected token stands before it on the same line: the parser's
  trees and the typed trees built from them.  Ranges are written \<open>rg l1 c1 l2 c2\<close>.
\<close>

definition rg :: "int \<Rightarrow> int \<Rightarrow> int \<Rightarrow> int \<Rightarrow> SrcRange" where
  "rg l1 c1 l2 c2 = SrcRange (SrcPosition l1 c1) (SrcPosition l2 c2)"

definition ex_lark_eof :: "SrcRange Lark" where
  "ex_lark_eof =
     Tree ''root''
       [Some (Tree ''error_node''
                [Some (Token ''NAME'' ''a'' (rg 1 1 1 2)),
                 Some (Token ''EQUAL'' ''='' (rg 1 3 1 4))]
                (rg 1 1 1 4))]
       (rg 1 1 1 4)"

definition ex_leaf_a :: LeafNode where
  "ex_leaf_a = LeafNode 0 Name (rg 1 1 1 2) ''a''"

definition ex_leaf_eq :: LeafNode where
  "ex_leaf_eq = LeafNode 1 Operator (rg 1 3 1 4) ''=''"

definition ex_root_eof :: TreeNode where
  "ex_root_eof =
     Trunk FileNode (rg 1 1 1 4)
       [Some (Trunk ErrorNode (rg 1 1 1 4) [Some (Leaf ex_leaf_a), Some (Leaf ex_leaf_eq)])]"

definition ex_links_eof :: Links where
  "ex_links_eof = snd (set_leaf_pointers (Some ex_root_eof) None Links_init)"

definition ex_lark_q :: "SrcRange Lark" where
  "ex_lark_q =
     Tree ''root''
       [Some (Token ''ERROR_TOKEN'' ''?'' (rg 1 1 1 2)),
        Some (Tree ''error_node''
                [Some (Token ''NAME'' ''a'' (rg 1 3 1 4)),
                 Some (Token ''EQUAL'' ''='' (rg 1 5 1 6))]
                (rg 1 3 1 6))]
       (rg 1 1 1 6)"

definition ex_leaf_q :: LeafNode where
  "ex_leaf_q = LeafNode 0 ErrorToken (rg 1 1 1 2) ''?''"

definition ex_leaf_a2 :: LeafNode where
  "ex_leaf_a2 = LeafNode 1 Name (rg 1 3 1 4) ''a''"

definition ex_leaf_eq2 :: LeafNode where
  "ex_leaf_eq2 = LeafNode 2 Operator (rg 1 5 1 6) ''=''"

definition ex_node_q :: TreeNode where
  "ex_node_q = Trunk ErrorNode (rg 1 3 1 6) [Some (Leaf ex_leaf_a2), Some (Leaf ex_leaf_eq2)]"

definition ex_root_q :: TreeNode where
  "ex_root_q = Trunk FileNode (rg 1 1 1 6) [Some (Leaf ex_leaf_q), Some ex_node_q]"

definition ex_links_q :: Links where
  "ex_links_q = snd (set_leaf_pointers (Some ex_root_q) None Links_init)"



section \<open>The position query (stibium/analysis.py)\<close>

text \<open>
  \<^verbatim>\<open>Model.get_name\<close> and \<^verbatim>\<open>Function.get_name\<close> are \<^verbatim>\<open>assert False, 'Not implemented'\<close>.
\<close>

definition Model_get_name :: "TreeNode \<Rightarrow> error + LeafNode" where
  "Model_get_name self = Inl AssertionError"

definition Function_get_name :: "TreeNode \<Rightarrow> error + LeafNode" where
  "Function_get_name self = Inl AssertionError"

definition within_range :: "SrcPosition \<Rightarrow> TreeNode \<Rightarrow> bool" where
  "within_range pos node =
     (pos_ge pos (start (node_range node)) \<and> pos_lt pos (end_pos (node_range node)))"

text \<open>The \<^verbatim>\<open>for\<close> loop: the first child that is not \<^verbatim>\<open>None\<close> and holds the position.\<close>

fun find_child :: "SrcPosition \<Rightarrow> TreeNode option list \<Rightarrow> TreeNode option" where
  "find_child pos [] = None"
| "find_child pos (None # cs) = find_child pos cs"
| "find_child pos (Some child # cs) =
     (if within_range pos child then Some child else find_child pos cs)"

lemma find_child_size:
  "find_child pos ch = Some c \<Longrightarrow> size c < Suc (size_list (size_option size) ch)"
  by (induction pos ch rule: find_child.induct) (auto split: if_splits)

text \<open>
  \<^verbatim>\<open>get_qname_at_position\<close>: the \<^verbatim>\<open>while\<close> loop with its variables \<^verbatim>\<open>node\<close>,
  \<^verbatim>\<open>model\<close> and \<^verbatim>\<open>func\<close>, and the code after it in the leaf case.  Python's
  \<^verbatim>\<open>str\<close> of a name object is a parameter.
\<close>

function get_qname_loop ::
  "(LeafNode \<Rightarrow> string) \<Rightarrow> SrcPosition \<Rightarrow> TreeNode \<Rightarrow> LeafNode option \<Rightarrow> LeafNode option
     \<Rightarrow> error + QName option" where
  "get_qname_loop str pos (Leaf l) model func =
     (if model \<noteq> None \<and> func \<noteq> None then Inl AssertionError
      else Inr (Some (QName
        (case model of
           Some m \<Rightarrow> ModelScope (str m)
         | None \<Rightarrow> (case func of Some f \<Rightarrow> FunctionScope (str f) | None \<Rightarrow> BaseScope))
        (Some (Leaf l)))))"
| "get_qname_loop str pos (Trunk k r ch) model func =
     (case (if k = ModelNode
            then (if model \<noteq> None then Inl AssertionError
                  else (case Model_get_name (Trunk k r ch) of
                          Inl e \<Rightarrow> Inl e
                        | Inr n \<Rightarrow> Inr (Some n, func)))
            else if k = FunctionNode
            then (if func \<noteq> None then Inl AssertionError
                  else (case Function_get_name (Trunk k r ch) of
                          Inl e \<Rightarrow> Inl e
                        | Inr n \<Rightarrow> Inr (model, Some n)))
            else Inr (model, func)) of
        Inl e \<Rightarrow> Inl e
      | Inr (model1, func1) \<Rightarrow>
          (case find_child pos ch of
             None \<Rightarrow> Inr None
           | Some child \<Rightarrow> get_qname_loop str pos child model1 func1))"
  by pat_completeness auto
termination
  by (relation "measure (\<lambda>(str, pos, node, model, func). size node)")
     (auto dest: find_child_size)

definition get_qname_at_position ::
  "(LeafNode \<Rightarrow> string) \<Rightarrow> TreeNode \<Rightarrow> SrcPosition \<Rightarrow> error + QName option" where
  "get_qname_at_position str root pos = get_qname_loop str pos root None None"


text \<open>
  A typed tree for \<^verbatim>\<open>model m; S1 -> S2; k1*S1; end\<close>, with a \<^verbatim>\<open>Model\<close> node below the
  root.  The tree builder has no rule for it: the tree is written down by hand.
\<close>

definition ex_leaf_S1 :: LeafNode where
  "ex_leaf_S1 = LeafNode 3 Name (rg 1 10 1 12) ''S1''"

definition ex_leaf_m :: LeafNode where
  "ex_leaf_m = LeafNode 1 Name (rg 1 7 1 8) ''m''"

definition ex_reaction :: TreeNode where
  "ex_reaction =
     Trunk ReactionNode (rg 1 10 1 25)
       [None,
        Some (Trunk SpeciesList (rg 1 10 1 12)
                [Some (Trunk SpeciesNode (rg 1 10 1 12) [None, None, Some (Leaf ex_leaf_S1)])]),
        Some (Leaf (LeafNode 4 Operator (rg 1 13 1 15) ''->'')),
        Some (Trunk SpeciesList (rg 1 16 1 18)
                [Some (Trunk SpeciesNode (rg 1 16 1 18)
                         [None, None, Some (Leaf (LeafNode 5 Name (rg 1 16 1 18) ''S2''))])]),
        Some (Leaf (LeafNode 6 Operator (rg 1 18 1 19) '';'')),
        Some (Trunk Product (rg 1 20 1 25)
                [Some (Leaf (LeafNode 7 Name (rg 1 20 1 22) ''k1'')),
                 Some (Leaf (LeafNode 8 Operator (rg 1 22 1 23) ''*'')),
                 Some (Leaf (LeafNode 9 Name (rg 1 23 1 25) ''S1''))]),
        None]"

definition ex_root_model :: TreeNode where
  "ex_root_model =
     Trunk FileNode (rg 1 1 1 30)
       [Some (Trunk ModelNode (rg 1 1 1 30)
          [Some (Leaf (LeafNode 0 Keyword (rg 1 1 1 6) ''model'')),
           Some (Leaf ex_leaf_m),
           Some (Leaf (LeafNode 2 Operator (rg 1 8 1 9) '';'')),
           Some (Trunk SimpleStmt (rg 1 10 1 26)
                   [Some ex_reaction, Some (Leaf (LeafNode 10 Operator (rg 1 25 1 26) '';''))]),
           Some (Leaf (LeafNode 11 Keyword (rg 1 27 1 30) ''end''))])]"


section \<open>The analyzer (stibium/analysis.py)\<close>

text \<open>
  Sequencing of calls that may raise: the first error ends the computation.  \<open>foldM\<close>
  is a \<^verbatim>\<open>for\<close> loop whose body may raise, \<open>index\<close> is \<^verbatim>\<open>children[i]\<close>.
\<close>

definition ebind :: "error + 'a \<Rightarrow> ('a \<Rightarrow> error + 'b) \<Rightarrow> error + 'b" where
  "ebind m f = (case m of Inl e \<Rightarrow> Inl e | Inr x \<Rightarrow> f x)"

fun foldM :: "('a \<Rightarrow> 's \<Rightarrow> error + 's) \<Rightarrow> 'a list \<Rightarrow> 's \<Rightarrow> error + 's" where
  "foldM f [] s = Inr s"
| "foldM f (x # xs) s = ebind (f x s) (foldM f xs)"

definition index :: "'a list \<Rightarrow> nat \<Rightarrow> error + 'a" where
  "index xs i = (if i < length xs then Inr (xs ! i) else Inl IndexError)"

text \<open>
  The accessors of the node classes.  A call \<^verbatim>\<open>x.m()\<close> is dispatched on the class of
  \<^verbatim>\<open>x\<close>: a class without the method, a leaf and \<^verbatim>\<open>None\<close> raise
  \<^verbatim>\<open>AttributeError\<close>.  \<^verbatim>\<open>get_var_name\<close> belongs to NameMaybeIn and Annotation.
\<close>

fun get_var_name :: "TreeNode option \<Rightarrow> error + TreeNode option" where
  "get_var_name (Some (Trunk k r ch)) =
     (if k = NameMaybeIn \<or> k = Annotation then index ch 0 else Inl AttributeError)"
| "get_var_name (Some (Leaf l)) = Inl AttributeError"
| "get_var_name None = Inl AttributeError"

lemma index_size:
  "index ch i = Inr c \<Longrightarrow> size_option size c < Suc (size_list (size_option size) ch)"
proof -
  assume "index ch i = Inr c"
  then have "c \<in> set ch" by (auto simp: index_def split: if_splits)
  then have "size_option size c \<le> size_list (size_option size) ch"
    by (induction ch) auto
  then show ?thesis by simp
qed

lemma get_var_name_size:
  "get_var_name m = Inr v \<Longrightarrow> size_option size v < size_option size m"
  by (cases m rule: get_var_name.cases) (auto dest: index_size split: if_splits)

text \<open>
  \<^verbatim>\<open>get_name\<close>: VarName and Species return a child; ReactionName, Assignment and
  DeclItem go through \<^verbatim>\<open>get_maybein().get_var_name().get_name()\<close>; Reaction returns
  \<^verbatim>\<open>None\<close> without a first child and asks the first child otherwise; Model and
  Function are not implemented.
\<close>

function get_name :: "TreeNode option \<Rightarrow> error + TreeNode option" where
  "get_name None = Inl AttributeError"
| "get_name (Some (Leaf l)) = Inl AttributeError"
| "get_name (Some (Trunk k r ch)) =
     (if k = VarName then index ch 1
      else if k = SpeciesNode then index ch 2
      else if k = ReactionName \<or> k = Assignment \<or> k = DeclItem then
        (case index ch 0 of
           Inl e \<Rightarrow> Inl e
         | Inr m \<Rightarrow> (case get_var_name m of Inl e \<Rightarrow> Inl e | Inr v \<Rightarrow> get_name v))
      else if k = ReactionNode then
        (case index ch 0 of
           Inl e \<Rightarrow> Inl e
         | Inr c \<Rightarrow> (if c = None then Inr None else get_name c))
      else if k = ModelNode \<or> k = FunctionNode then Inl AssertionError
      else Inl AttributeError)"
  by pat_completeness auto
termination
proof (relation "measure (size_option size)")
  show "wf (measure (size_option size))" by simp
next
  fix k :: TrunkKind and r ch and m v :: "TreeNode option"
  assume "index ch 0 = Inr m" and "get_var_name m = Inr v"
  then have "size_option size v < size_option size m"
    and "size_option size m < Suc (size_list (size_option size) ch)"
    by (auto dest: index_size get_var_name_size)
  then show "(v, Some (Trunk k r ch)) \<in> measure (size_option size)" by simp
next
  fix k :: TrunkKind and r ch and c :: "TreeNode option"
  assume "index ch 0 = Inr c"
  then have "size_option size c < Suc (size_list (size_option size) ch)"
    by (rule index_size)
  then show "(c, Some (Trunk k r ch)) \<in> measure (size_option size)" by simp
qed

text \<open>
  \<^verbatim>\<open>get_value\<close> returns a node or \<^verbatim>\<open>None\<close>, except for a Number leaf, where it is
  \<^verbatim>\<open>float(self.text)\<close>.  Of the float only its truth value matters to the analyzer;
  Python's \<^verbatim>\<open>float\<close> is a parameter \<open>fl\<close> that gives it or raises.
\<close>

datatype PyValue = NodeValue "TreeNode option" | FloatValue bool

function get_value :: "(string \<Rightarrow> error + bool) \<Rightarrow> TreeNode option \<Rightarrow> error + PyValue" where
  "get_value fl None = Inl AttributeError"
| "get_value fl (Some (Leaf l)) =
     (if leaf_kind l = Number
      then (case fl (leaf_text l) of Inl e \<Rightarrow> Inl e | Inr b \<Rightarrow> Inr (FloatValue b))
      else Inl AttributeError)"
| "get_value fl (Some (Trunk k r ch)) =
     (if k = Assignment then
        (case index ch 2 of Inl e \<Rightarrow> Inl e | Inr c \<Rightarrow> Inr (NodeValue c))
      else if k = DeclAssignment then
        (case index ch 1 of Inl e \<Rightarrow> Inl e | Inr c \<Rightarrow> Inr (NodeValue c))
      else if k = DeclItem then
        (case index ch 1 of
           Inl e \<Rightarrow> Inl e
         | Inr node \<Rightarrow> (if node = None then Inr (NodeValue None) else get_value fl node))
      else Inl AttributeError)"
  by pat_completeness auto
termination
proof (relation "measure (\<lambda>(fl, t). size_option size t)")
  show "wf (measure (\<lambda>(fl, t). size_option size t))" by simp
next
  fix fl :: "string \<Rightarrow> error + bool" and k :: TrunkKind and r ch and node :: "TreeNode option"
  assume "index ch 1 = Inr node"
  then have "size_option size node < Suc (size_list (size_option size) ch)"
    by (rule index_size)
  then show "((fl, node), fl, Some (Trunk k r ch)) \<in> measure (\<lambda>(fl, t). size_option size t)"
    by simp
qed

fun truthy :: "PyValue \<Rightarrow> bool" where
  "truthy (NodeValue None) = False"
| "truthy (NodeValue (Some n)) = True"
| "truthy (FloatValue b) = b"

text \<open>
  \<^verbatim>\<open>TrunkNode.descendants\<close>: the node itself, then the children that are not
  \<^verbatim>\<open>None\<close>, a leaf as it is and a trunk with its descendants.
\<close>

function descendants :: "TreeNode \<Rightarrow> TreeNode list"
  and descendants_loop :: "TreeNode option list \<Rightarrow> TreeNode list" where
  "descendants (Trunk k r ch) = Trunk k r ch # descendants_loop ch"
| "descendants (Leaf l) = [Leaf l]"
| "descendants_loop [] = []"
| "descendants_loop (None # cs) = descendants_loop cs"
| "descendants_loop (Some (Leaf l) # cs) = Leaf l # descendants_loop cs"
| "descendants_loop (Some (Trunk k r ch) # cs) = descendants (Trunk k r ch) @ descendants_loop cs"
  by pat_completeness auto
termination
  by (relation "measure (\<lambda>x. case x of
          Inl t \<Rightarrow> size t
        | Inr cs \<Rightarrow> size_list (size_option size) cs)")
     simp_all

text \<open>
  The slice \<^verbatim>\<open>[::2]\<close>; the slice \<^verbatim>\<open>[1::2]\<close> is \<open>every_other (tl ch)\<close>.
\<close>

fun every_other :: "'a list \<Rightarrow> 'a list" where
  "every_other [] = []"
| "every_other [x] = [x]"
| "every_other (x # y # zs) = x # every_other zs"

fun get_maybein :: "TreeNode option \<Rightarrow> error + TreeNode option" where
  "get_maybein (Some (Trunk k r ch)) =
     (if k = ReactionName \<or> k = Assignment \<or> k = DeclItem then index ch 0
      else Inl AttributeError)"
| "get_maybein (Some (Leaf l)) = Inl AttributeError"
| "get_maybein None = Inl AttributeError"

fun get_all_species :: "TreeNode \<Rightarrow> error + TreeNode option list" where
  "get_all_species (Trunk k r ch) =
     (if k = SpeciesList then Inr (every_other ch) else Inl AttributeError)"
| "get_all_species (Leaf l) = Inl AttributeError"

definition species_of_list :: "TreeNode option \<Rightarrow> error + TreeNode option list" where
  "species_of_list slist = (case slist of None \<Rightarrow> Inr [] | Some s \<Rightarrow> get_all_species s)"

datatype Variability = UNKNOWN | CONSTANT | VARIABLE

fun get_variab :: "TreeNode option \<Rightarrow> error + Variability" where
  "get_variab (Some (Trunk k r ch)) =
     (if k = DeclModifiers then
        ebind (index ch 0) (\<lambda>var_mod.
          case var_mod of
            None \<Rightarrow> Inr UNKNOWN
          | Some (Leaf l) \<Rightarrow> Inr (if leaf_text l = ''const'' then CONSTANT else VARIABLE)
          | Some (Trunk k' r' ch') \<Rightarrow> Inl AttributeError)
      else Inl AttributeError)"
| "get_variab (Some (Leaf l)) = Inl AttributeError"
| "get_variab None = Inl AttributeError"

fun get_type :: "TreeNode option \<Rightarrow> error + SymbolType" where
  "get_type (Some (Trunk k r ch)) =
     (if k = DeclModifiers then
        ebind (index ch 1) (\<lambda>type_mod.
          case type_mod of
            None \<Rightarrow> Inr Unknown
          | Some (Leaf l) \<Rightarrow>
              (case map_of [(''species'', Species), (''compartment'', Compartment),
                            (''formula'', Parameter)] (leaf_text l) of
                 None \<Rightarrow> Inl KeyError
               | Some ty \<Rightarrow> Inr ty)
          | Some (Trunk k' r' ch') \<Rightarrow> Inl AttributeError)
      else Inl AttributeError)"
| "get_type (Some (Leaf l)) = Inl AttributeError"
| "get_type None = Inl AttributeError"

text \<open>
  The handlers.  Each takes the symbol table and returns the new one, or the error that
  ended it.
\<close>

definition handle_child_incomp :: "SymbolTable \<Rightarrow> Scope \<Rightarrow> TreeNode \<Rightarrow> error + SymbolTable" where
  "handle_child_incomp self sc node =
     (case node of
        Leaf l \<Rightarrow> Inl AttributeError
      | Trunk k0 r0 ch0 \<Rightarrow>
          foldM (\<lambda>child t.
                   case child of
                     Leaf l \<Rightarrow> Inr t
                   | Trunk k r ch \<Rightarrow>
                       if k = InComp then
                         ebind (index ch 1) (\<lambda>comp.
                         ebind (get_name comp) (\<lambda>nm.
                           SymbolTable_insert t (QName sc nm) Compartment None None))
                       else Inr t)
            (descendants node) self)"

fun handle_arith_expr :: "SymbolTable \<Rightarrow> Scope \<Rightarrow> PyValue \<Rightarrow> error + SymbolTable" where
  "handle_arith_expr self sc (FloatValue b) = Inr self"
| "handle_arith_expr self sc (NodeValue None) = Inr self"
| "handle_arith_expr self sc (NodeValue (Some (Leaf l))) =
     (if leaf_kind l = Name
      then SymbolTable_insert self (QName sc (Some (Leaf l))) Parameter None None
      else Inr self)"
| "handle_arith_expr self sc (NodeValue (Some (Trunk k r ch))) =
     foldM (\<lambda>leaf t.
              if leaf_kind leaf = Name
              then SymbolTable_insert t (QName sc (Some (Leaf leaf))) Parameter None None
              else Inr t)
       (scan_leaves (Trunk k r ch)) self"

definition handle_reaction :: "SymbolTable \<Rightarrow> Scope \<Rightarrow> TreeNode \<Rightarrow> error + SymbolTable" where
  "handle_reaction self sc reaction =
     ebind (get_name (Some reaction)) (\<lambda>nm.
     ebind (if nm \<noteq> None
            then SymbolTable_insert self (QName sc nm) Reaction (Some reaction) None
            else Inr self) (\<lambda>t1.
     ebind (node_children reaction) (\<lambda>ch.
     ebind (ebind (index ch 1) species_of_list) (\<lambda>reactants.
     ebind (ebind (index ch 3) species_of_list) (\<lambda>products.
     ebind (foldM (\<lambda>species t.
                     ebind (get_name species) (\<lambda>sn.
                       SymbolTable_insert t (QName sc sn) Species None None))
              (reactants @ products) t1) (\<lambda>t2.
     ebind (index ch 5) (\<lambda>rate_law.
       handle_arith_expr t2 sc (NodeValue rate_law))))))))"

definition handle_assignment ::
  "(string \<Rightarrow> error + bool) \<Rightarrow> SymbolTable \<Rightarrow> Scope \<Rightarrow> TreeNode \<Rightarrow> error + SymbolTable" where
  "handle_assignment fl self sc assignment =
     ebind (get_name (Some assignment)) (\<lambda>nm.
     ebind (SymbolTable_insert self (QName sc nm) Parameter None (Some assignment)) (\<lambda>t1.
     ebind (get_value fl (Some assignment)) (\<lambda>v.
       handle_arith_expr t1 sc v)))"

definition handle_declaration ::
  "(string \<Rightarrow> error + bool) \<Rightarrow> SymbolTable \<Rightarrow> Scope \<Rightarrow> TreeNode \<Rightarrow> error + SymbolTable" where
  "handle_declaration fl self sc declaration =
     ebind (node_children declaration) (\<lambda>ch.
     ebind (index ch 0) (\<lambda>modifiers.
     ebind (get_variab modifiers) (\<lambda>variab.
     ebind (get_type modifiers) (\<lambda>stype.
       foldM (\<lambda>item t.
                ebind (get_maybein item) (\<lambda>mb.
                ebind (get_var_name mb) (\<lambda>vn.
                ebind (get_name vn) (\<lambda>nm.
                ebind (get_value fl item) (\<lambda>v.
                ebind (SymbolTable_insert t (QName sc nm) stype (Some declaration)
                         (if truthy v then item else None)) (\<lambda>t1.
                  if truthy v then handle_arith_expr t1 sc v else Inr t1))))))
         (every_other (tl ch)) self))))"

definition handle_annotation :: "SymbolTable \<Rightarrow> Scope \<Rightarrow> TreeNode \<Rightarrow> error + SymbolTable" where
  "handle_annotation self sc annotation =
     ebind (get_var_name (Some annotation)) (\<lambda>vn.
     ebind (get_name vn) (\<lambda>nm.
     ebind (SymbolTable_insert self (QName sc nm) Parameter None None) (\<lambda>t1.
       insert_annotation t1 (QName sc nm) annotation)))"

text \<open>
  The body of the loop of \<^verbatim>\<open>AntTreeAnalyzer.__init__\<close> over the children of the root:
  error tokens and error nodes are skipped, a SimpleStmt is dispatched on the class name
  of its statement (a class that is not in the dictionary raises \<^verbatim>\<open>KeyError\<close>), any
  other child is passed over.
\<close>

definition analyze_child ::
  "(string \<Rightarrow> error + bool) \<Rightarrow> Scope \<Rightarrow> TreeNode option \<Rightarrow> SymbolTable \<Rightarrow> error + SymbolTable" where
  "analyze_child fl base_scope child t =
     (case child of
        None \<Rightarrow> Inr t
      | Some (Leaf l) \<Rightarrow> Inr t
      | Some (Trunk k r ch) \<Rightarrow>
          if k = ErrorNode then Inr t
          else if k = SimpleStmt then
            ebind (index ch 0) (\<lambda>stmt.
              case stmt of
                None \<Rightarrow> Inr t
              | Some (Leaf l) \<Rightarrow> Inl KeyError
              | Some (Trunk k' r' ch') \<Rightarrow>
                  ebind (if k' = ReactionNode then handle_reaction t base_scope (Trunk k' r' ch')
                         else if k' = Assignment then handle_assignment fl t base_scope (Trunk k' r' ch')
                         else if k' = Declaration then handle_declaration fl t base_scope (Trunk k' r' ch')
                         else if k' = Annotation then handle_annotation t base_scope (Trunk k' r' ch')
                         else Inl KeyError) (\<lambda>t1.
                    handle_child_incomp t1 base_scope (Trunk k' r' ch')))
          else Inr t)"

text \<open>
  The analyzer object after construction.  The fields \<^verbatim>\<open>table\<close> and \<^verbatim>\<open>root\<close> are
  written \<open>an_table\<close> and \<open>an_root\<close>.
\<close>

record Analyzer =
  an_table :: SymbolTable
  an_root :: TreeNode
  semantic_issues :: "Issue list"
  syntax_issues :: "Issue list"

definition AntTreeAnalyzer ::
  "(string \<Rightarrow> error + bool) \<Rightarrow> Links \<Rightarrow> TreeNode \<Rightarrow> error + Analyzer" where
  "AntTreeAnalyzer fl h root =
     ebind (node_children root) (\<lambda>ch.
     ebind (foldM (analyze_child fl BaseScope) ch SymbolTable_init) (\<lambda>t.
     ebind (record_syntax_issues h root) (\<lambda>si.
       Inr \<lparr>an_table = t, an_root = root, semantic_issues = issues t, syntax_issues = si\<rparr>)))"

definition get_issues :: "Analyzer \<Rightarrow> Issue list" where
  "get_issues self = semantic_issues self @ syntax_issues self"

text \<open>
  Every logged qname and every key of the table is the given scope.
\<close>

definition only_scope :: "Scope \<Rightarrow> SymbolTable \<Rightarrow> bool" where
  "only_scope sc t = (list_all (\<lambda>q. scope q = sc) (qnames t) \<and> list_all (\<lambda>e. fst e = sc) (table t))"

text \<open>
  The typed tree of \<^verbatim>\<open>const species A = 5; A = 10;\<close>, the symbol it ends with, and the
  tables after the first and after the second statement.
\<close>

definition ex_name_A1 :: LeafNode where
  "ex_name_A1 = LeafNode 2 Name (rg 1 15 1 16) ''A''"

definition ex_name_A2 :: LeafNode where
  "ex_name_A2 = LeafNode 6 Name (rg 1 22 1 23) ''A''"

definition ex_decl_item :: TreeNode where
  "ex_decl_item =
     Trunk DeclItem (rg 1 15 1 20)
       [Some (Trunk NameMaybeIn (rg 1 15 1 16)
                [Some (Trunk VarName (rg 1 15 1 16) [None, Some (Leaf ex_name_A1)]), None]),
        Some (Trunk DeclAssignment (rg 1 17 1 20)
                [Some (Leaf (LeafNode 3 Operator (rg 1 17 1 18) ''='')),
                 Some (Leaf (LeafNode 4 Number (rg 1 19 1 20) ''5''))])]"

definition ex_declaration :: TreeNode where
  "ex_declaration =
     Trunk Declaration (rg 1 1 1 20)
       [Some (Trunk DeclModifiers (rg 1 1 1 14)
                [Some (Leaf (LeafNode 0 VarModifier (rg 1 1 1 6) ''const'')),
                 Some (Leaf (LeafNode 1 TypeModifier (rg 1 7 1 14) ''species''))]),
        Some ex_decl_item]"

definition ex_assignment :: TreeNode where
  "ex_assignment =
     Trunk Assignment (rg 1 22 1 28)
       [Some (Trunk NameMaybeIn (rg 1 22 1 23)
                [Some (Trunk VarName (rg 1 22 1 23) [None, Some (Leaf ex_name_A2)]), None]),
        Some (Leaf (LeafNode 7 Operator (rg 1 24 1 25) ''='')),
        Some (Leaf (LeafNode 8 Number (rg 1 26 1 28) ''10''))]"

definition ex_root_decl :: TreeNode where
  "ex_root_decl =
     Trunk FileNode (rg 1 1 1 29)
       [Some (Trunk SimpleStmt (rg 1 1 1 21)
                [Some ex_declaration, Some (Leaf (LeafNode 5 Operator (rg 1 20 1 21) '';''))]),
        Some (Trunk SimpleStmt (rg 1 22 1 29)
                [Some ex_assignment, Some (Leaf (LeafNode 9 Operator (rg 1 28 1 29) '';''))])]"

definition ex_symbol_A :: Symbol where
  "ex_symbol_A =
     \<lparr>name = ''A'', type = Species, type_name = ex_name_A1, decl_name = Some ex_name_A1,
      decl_node = Some ex_declaration, value_node = Some ex_assignment, annotations = []\<rparr>"

definition ex_table_decl :: SymbolTable where
  "ex_table_decl =
     \<lparr>table = [(BaseScope, [(''A'', ex_symbol_A\<lparr>value_node := Some ex_decl_item\<rparr>)])],
      issues = [], qnames = [QName BaseScope (Some (Leaf ex_name_A1))]\<rparr>"

definition ex_table_final :: SymbolTable where
  "ex_table_final =
     \<lparr>table = [(BaseScope, [(''A'', ex_symbol_A)])],
      issues = [ObscuredValue (rg 1 15 1 20) (rg 1 22 1 28) ''A''],
      qnames = [QName BaseScope (Some (Leaf ex_name_A1)), QName BaseScope (Some (Leaf ex_name_A2))]\<rparr>"

text \<open>
  An ErrorNode with nested trunks that ends the file, the text \<^verbatim>\<open>a =?\<close> where an
  unexpected token follows the ErrorNode, and two blank error tokens: a line feed and
  U+00A0.
\<close>

definition ex_lark_nested :: "SrcRange Lark" where
  "ex_lark_nested =
     Tree ''root''
       [Some (Tree ''error_node''
                [Some (Token ''NAME'' ''J'' (rg 1 1 1 2)),
                 Some (Tree ''namemaybein''
                         [Some (Tree ''var_name'' [None, Some (Token ''NAME'' ''b'' (rg 1 3 1 4))]
                                  (rg 1 3 1 4)),
                          None]
                         (rg 1 3 1 4)),
                 Some (Tree ''species_list'' [] (rg 1 4 1 4))]
                (rg 1 1 1 4))]
       (rg 1 1 1 4)"

definition ex_leaf_J :: LeafNode where
  "ex_leaf_J = LeafNode 0 Name (rg 1 1 1 2) ''J''"

definition ex_leaf_b :: LeafNode where
  "ex_leaf_b = LeafNode 1 Name (rg 1 3 1 4) ''b''"

definition ex_node_nested :: TreeNode where
  "ex_node_nested =
     Trunk ErrorNode (rg 1 1 1 4)
       [Some (Leaf ex_leaf_J),
        Some (Trunk NameMaybeIn (rg 1 3 1 4)
                [Some (Trunk VarName (rg 1 3 1 4) [None, Some (Leaf ex_leaf_b)]), None]),
        Some (Trunk SpeciesList (rg 1 4 1 4) [])]"

definition ex_root_nested :: TreeNode where
  "ex_root_nested = Trunk FileNode (rg 1 1 1 4) [Some ex_node_nested]"

definition ex_links_nested :: Links where
  "ex_links_nested = snd (set_leaf_pointers (Some ex_root_nested) None Links_init)"

definition ex_lark_mid :: "SrcRange Lark" where
  "ex_lark_mid =
     Tree ''root''
       [Some (Tree ''error_node''
                [Some (Token ''NAME'' ''a'' (rg 1 1 1 2)),
                 Some (Token ''EQUAL'' ''='' (rg 1 3 1 4))]
                (rg 1 1 1 4)),
        Some (Token ''ERROR_TOKEN'' ''?'' (rg 1 4 1 5))]
       (rg 1 1 1 5)"

definition ex_leaf_q3 :: LeafNode where
  "ex_leaf_q3 = LeafNode 2 ErrorToken (rg 1 4 1 5) ''?''"

definition ex_node_mid :: TreeNode where
  "ex_node_mid = Trunk ErrorNode (rg 1 1 1 4) [Some (Leaf ex_leaf_a), Some (Leaf ex_leaf_eq)]"

definition ex_root_mid :: TreeNode where
  "ex_root_mid = Trunk FileNode (rg 1 1 1 5) [Some ex_node_mid, Some (Leaf ex_leaf_q3)]"

definition ex_links_mid :: Links where
  "ex_links_mid = snd (set_leaf_pointers (Some ex_root_mid) None Links_init)"

definition ex_leaf_nl :: LeafNode where
  "ex_leaf_nl = LeafNode 3 ErrorToken (rg 1 4 2 1) [CHR 0x0A]"

definition ex_leaf_nbsp :: LeafNode where
  "ex_leaf_nbsp = LeafNode 4 ErrorToken (rg 3 1 3 2) [CHR 0xA0]"

section \<open>The type lattice\<close>

lemma derives_from_refl: "derives_from a a"
  by (simp add: derives_from_def)

lemma derives_from_Unknown: "derives_from x Unknown"
  by (simp add: derives_from_def)

lemma derives_from_param_cases:
  "derives_from_param s \<longleftrightarrow> s = Species \<or> s = Compartment \<or> s = Reaction \<or> s = Constraint"
  by (auto simp: derives_from_param_def)

lemma derives_from_antisym:
  assumes "derives_from a b" and "derives_from b a"
  shows "a = b"
proof (rule ccontr)
  assume ne: "a \<noteq> b"
  from assms(1) ne have b: "b = Unknown \<or> (b = Variable \<and> (derives_from_param a \<or> a = Parameter))
      \<or> (b = Parameter \<and> derives_from_param a)"
    by (auto simp: derives_from_def split: if_splits)
  from assms(2) ne have a: "a = Unknown \<or> (a = Variable \<and> (derives_from_param b \<or> b = Parameter))
      \<or> (a = Parameter \<and> derives_from_param b)"
    by (auto simp: derives_from_def split: if_splits)
  from a b ne show False
    by (auto simp: derives_from_param_cases)
qed

lemma derives_from_trans:
  assumes "derives_from a b" and "derives_from b c"
  shows "derives_from a c"
proof (cases "a = b \<or> b = c \<or> c = Unknown")
  case True
  with assms show ?thesis by (auto simp: derives_from_Unknown)
next
  case False
  with assms(2) have c: "(c = Variable \<and> (derives_from_param b \<or> b = Parameter))
      \<or> (c = Parameter \<and> derives_from_param b)"
    by (auto simp: derives_from_def split: if_splits)
  from False assms(1) have b: "b = Unknown \<or> (b = Variable \<and> (derives_from_param a \<or> a = Parameter))
      \<or> (b = Parameter \<and> derives_from_param a)"
    by (auto simp: derives_from_def split: if_splits)
  from b c show ?thesis
    by (auto simp: derives_from_param_cases derives_from_def)
qed

text \<open>
  Claim C2.  \<^verbatim>\<open>derives_from\<close> is a partial order on \<^verbatim>\<open>SymbolType\<close>: it is reflexive,
  two types derive from each other exactly when they are equal, it is transitive, and
  every type derives from \<^verbatim>\<open>Unknown\<close>, the top element.
\<close>

theorem derives_from_partial_order:
  "derives_from a a
   \<and> ((derives_from a b \<and> derives_from b a) = (a = b))
   \<and> derives_from x Unknown
   \<and> (derives_from a b \<longrightarrow> derives_from b c \<longrightarrow> derives_from a c)"
  using derives_from_antisym derives_from_refl derives_from_Unknown derives_from_trans
  by blast

theorem derives_from_partial_order_witness:
  "derives_from Species Parameter \<and> derives_from Parameter Variable
   \<and> derives_from Species Variable \<and> derives_from Species Species
   \<and> derives_from Event Unknown
   \<and> ((derives_from Species Parameter \<and> derives_from Parameter Species) = (Species = Parameter))"
proof -
  have 1: "derives_from Species Parameter"
    by (simp add: derives_from_def derives_from_param_def)
  have 2: "derives_from Parameter Variable"
    by (simp add: derives_from_def derives_from_param_def)
  show ?thesis
    using 1 2 derives_from_partial_order [of Species Parameter Event Variable]
    by simp
qed

section \<open>The symbol table\<close>


lemma lookup_store_same: "lookup (store_symbol self sc n s) sc n = Some s"
  by (simp add: lookup_def store_symbol_def update_conv')

lemma lookup_leaf_table:
  "leaf_table self sc = (d, self') \<Longrightarrow> map_of d n = lookup self sc n"
  by (auto simp: leaf_table_def lookup_def split: option.splits)

lemma leaf_table_present:
  "lookup self sc n = Some symb \<Longrightarrow> \<exists>d. leaf_table self sc = (d, self) \<and> map_of d n = Some symb"
  by (auto simp: leaf_table_def lookup_def split: option.splits)

lemma issues_store [simp]: "issues (store_symbol self sc n s) = issues self"
  by (simp add: store_symbol_def)

lemma qnames_store [simp]: "qnames (store_symbol self sc n s) = qnames self"
  by (simp add: store_symbol_def)

lemma issues_leaf_table: "leaf_table self sc = (d, self') \<Longrightarrow> issues self' = issues self"
  by (auto simp: leaf_table_def split: option.splits)

lemma qnames_leaf_table: "leaf_table self sc = (d, self') \<Longrightarrow> qnames self' = qnames self"
  by (auto simp: leaf_table_def split: option.splits)

lemma lookup_leaf_table_after:
  "leaf_table self sc = (d, self') \<Longrightarrow> lookup self' sc' n' = lookup self sc' n'"
  by (auto simp: leaf_table_def lookup_def map_add_def split: option.splits if_splits)

text \<open>
  Claim C1.  When a symbol exists for (scope, name) and neither the new type derives
  from the existing type nor the existing type from the new one, \<^verbatim>\<open>insert\<close> returns
  a table that differs from the old one in two places only: the qname is appended to the
  insertion log, and one \<^verbatim>\<open>IncompatibleType\<close> issue is appended, carrying the old type
  with the range of its defining token and the new type with the range of the new
  occurrence.  The dictionaries are untouched, so the symbol keeps its type, declaration
  and value, and no \<^verbatim>\<open>ObscuredValue\<close> issue is added.
\<close>

theorem insert_incompatible:
  assumes nm: "qname_name qname = Some (Leaf (LeafNode i k r n))"
      and ex: "lookup self (scope qname) n = Some symb"
      and n1: "\<not> derives_from typ (type symb)"
      and n2: "\<not> derives_from (type symb) typ"
  shows "SymbolTable_insert self qname typ decl_nd value_nd =
           Inr (self\<lparr>issues := issues self @
                        [IncompatibleType (type symb) (leaf_range (type_name symb)) typ r],
                     qnames := qnames self @ [qname]\<rparr>)"
proof -
  let ?s1 = "self\<lparr>qnames := qnames self @ [qname]\<rparr>"
  have "lookup ?s1 (scope qname) n = Some symb"
    using ex by (simp add: lookup_def)
  then obtain d where d: "leaf_table ?s1 (scope qname) = (d, ?s1)" "map_of d n = Some symb"
    using leaf_table_present by blast
  show ?thesis
    using nm d n1 n2 by (simp add: SymbolTable_insert_def Let_def)
qed

lemma insert_new:
  assumes nm: "qname_name qname = Some (Leaf (LeafNode i k r n))"
      and ex: "lookup self (scope qname) n = None"
  shows "\<exists>s'. SymbolTable_insert self qname typ dn vn = Inr s'
           \<and> lookup s' (scope qname) n =
               Some ((VarSymbol n typ (LeafNode i k r n))
                      \<lparr>decl_name := (if dn = None then None else Some (LeafNode i k r n)),
                       decl_node := dn, value_node := vn\<rparr>)
           \<and> issues s' = issues self \<and> qnames s' = qnames self @ [qname]"
proof -
  let ?s1 = "self\<lparr>qnames := qnames self @ [qname]\<rparr>"
  obtain d s2 where d: "leaf_table ?s1 (scope qname) = (d, s2)"
    by (cases "leaf_table ?s1 (scope qname)")
  have l1: "lookup ?s1 (scope qname) n = None"
    using ex by (simp add: lookup_def)
  have m: "map_of d n = None"
    using lookup_leaf_table [OF d] l1 by simp
  have i2: "issues s2 = issues self" "qnames s2 = qnames self @ [qname]"
    using issues_leaf_table [OF d] qnames_leaf_table [OF d] by simp_all
  show ?thesis
    using nm d m i2
    by (cases dn; cases vn)
       (simp_all add: SymbolTable_insert_def Let_def lookup_store_same VarSymbol_def)
qed

lemma insert_old:
  assumes nm: "qname_name qname = Some (Leaf (LeafNode i k r n))"
      and ex: "lookup self (scope qname) n = Some symb"
      and ok: "derives_from typ (type symb) \<or> derives_from (type symb) typ"
  shows "\<exists>s' symb'. SymbolTable_insert self qname typ dn vn = Inr s'
           \<and> lookup s' (scope qname) n = Some symb'
           \<and> type symb' = (if derives_from typ (type symb) then typ else type symb)
           \<and> value_node symb' = (case vn of None \<Rightarrow> value_node symb | Some v \<Rightarrow> Some v)
           \<and> issues s' = issues self @ obscured (value_node symb) vn n
           \<and> qnames s' = qnames self @ [qname]"
proof -
  let ?s1 = "self\<lparr>qnames := qnames self @ [qname]\<rparr>"
  have "lookup ?s1 (scope qname) n = Some symb"
    using ex by (simp add: lookup_def)
  then obtain d where d: "leaf_table ?s1 (scope qname) = (d, ?s1)" "map_of d n = Some symb"
    using leaf_table_present by blast
  show ?thesis
    using nm d ok
    by (cases dn; cases vn; cases "value_node symb")
       (auto simp add: SymbolTable_insert_def Let_def lookup_store_same obscured_def)
qed

lemma filter_obscured [simp]: "filter is_IncompatibleType (obscured a b n) = []"
  by (simp add: obscured_def split: option.splits)

lemma obscured_None [simp]: "obscured None b n = []" "obscured a None n = []"
  by (simp_all add: obscured_def split: option.splits)

lemma insert_twice:
  assumes fresh: "lookup self sc n = None"
      and cmp: "derives_from B A \<or> derives_from A B"
  shows "\<exists>s1 s2 symb.
           SymbolTable_insert self (QName sc (Some (Leaf (LeafNode i1 k1 r1 n)))) A d1 v1 = Inr s1
         \<and> SymbolTable_insert s1 (QName sc (Some (Leaf (LeafNode i2 k2 r2 n)))) B d2 v2 = Inr s2
         \<and> lookup s2 sc n = Some symb
         \<and> type symb = (if derives_from B A then B else A)
         \<and> issues s2 = issues self @ obscured v1 v2 n"
proof -
  let ?q1 = "QName sc (Some (Leaf (LeafNode i1 k1 r1 n)))" and ?q2 = "QName sc (Some (Leaf (LeafNode i2 k2 r2 n)))"
  from insert_new [of ?q1 i1 k1 r1 n self A d1 v1] fresh
  obtain s1 where s1: "SymbolTable_insert self ?q1 A d1 v1 = Inr s1"
    and l1: "lookup s1 sc n = Some ((VarSymbol n A (LeafNode i1 k1 r1 n))
                      \<lparr>decl_name := (if d1 = None then None else Some (LeafNode i1 k1 r1 n)),
                       decl_node := d1, value_node := v1\<rparr>)"
    and i1: "issues s1 = issues self"
    by auto
  let ?sy = "(VarSymbol n A (LeafNode i1 k1 r1 n))
                      \<lparr>decl_name := (if d1 = None then None else Some (LeafNode i1 k1 r1 n)),
                       decl_node := d1, value_node := v1\<rparr>"
  have ty: "type ?sy = A" and vl: "value_node ?sy = v1"
    by (simp_all add: VarSymbol_def)
  from insert_old [of ?q2 i2 k2 r2 n s1 ?sy B d2 v2] l1 cmp ty
  obtain s2 symb where s2: "SymbolTable_insert s1 ?q2 B d2 v2 = Inr s2"
    and l2: "lookup s2 sc n = Some symb"
    and t2: "type symb = (if derives_from B A then B else A)"
    and i2: "issues s2 = issues s1 @ obscured (value_node ?sy) v2 n"
    by auto
  show ?thesis
    using s1 s2 l2 t2 i2 i1 vl by simp
qed

text \<open>
  Claim C3.  For a name that is new in its scope and types \<open>A\<close>, \<open>B\<close> with
  \<open>derives_from B A\<close>: inserting \<open>A\<close> then \<open>B\<close> gives a symbol of type \<open>B\<close>, and so
  does inserting \<open>B\<close> then \<open>A\<close>; inserting one type \<open>T\<close> twice leaves the type at
  \<open>T\<close>.  None of the calls adds an \<^verbatim>\<open>IncompatibleType\<close> issue, and unless both
  calls carry a value node no issue at all is added.
\<close>

theorem narrowing_order_independent:
  assumes fresh: "lookup self sc n = None"
      and sub: "derives_from B A"
      and q1: "q1 = QName sc (Some (Leaf (LeafNode i1 k1 r1 n)))"
      and q2: "q2 = QName sc (Some (Leaf (LeafNode i2 k2 r2 n)))"
  shows "(\<exists>s1 s2 symb.
            SymbolTable_insert self q1 A d1 v1 = Inr s1
          \<and> SymbolTable_insert s1 q2 B d2 v2 = Inr s2
          \<and> lookup s2 sc n = Some symb \<and> type symb = B
          \<and> filter is_IncompatibleType (issues s2) = filter is_IncompatibleType (issues self)
          \<and> (v1 = None \<or> v2 = None \<longrightarrow> issues s2 = issues self))
       \<and> (\<exists>s1 s2 symb.
            SymbolTable_insert self q1 B d1 v1 = Inr s1
          \<and> SymbolTable_insert s1 q2 A d2 v2 = Inr s2
          \<and> lookup s2 sc n = Some symb \<and> type symb = B
          \<and> filter is_IncompatibleType (issues s2) = filter is_IncompatibleType (issues self)
          \<and> (v1 = None \<or> v2 = None \<longrightarrow> issues s2 = issues self))
       \<and> (\<exists>s1 s2 symb1 symb2.
            SymbolTable_insert self q1 T d1 v1 = Inr s1
          \<and> lookup s1 sc n = Some symb1 \<and> type symb1 = T
          \<and> SymbolTable_insert s1 q2 T d2 v2 = Inr s2
          \<and> lookup s2 sc n = Some symb2 \<and> type symb2 = T
          \<and> filter is_IncompatibleType (issues s2) = filter is_IncompatibleType (issues self)
          \<and> (v1 = None \<or> v2 = None \<longrightarrow> issues s2 = issues self))"
proof (intro conjI)
  from insert_twice [OF fresh, of B A i1 k1 r1 d1 v1 i2 k2 r2 d2 v2] sub
  obtain s1 s2 symb where
    "SymbolTable_insert self q1 A d1 v1 = Inr s1" "SymbolTable_insert s1 q2 B d2 v2 = Inr s2"
    "lookup s2 sc n = Some symb" "type symb = B" "issues s2 = issues self @ obscured v1 v2 n"
    unfolding q1 q2 by auto
  then show "\<exists>s1 s2 symb.
            SymbolTable_insert self q1 A d1 v1 = Inr s1
          \<and> SymbolTable_insert s1 q2 B d2 v2 = Inr s2
          \<and> lookup s2 sc n = Some symb \<and> type symb = B
          \<and> filter is_IncompatibleType (issues s2) = filter is_IncompatibleType (issues self)
          \<and> (v1 = None \<or> v2 = None \<longrightarrow> issues s2 = issues self)"
    by auto
next
  have AB: "derives_from A B \<Longrightarrow> A = B"
    using sub derives_from_antisym by blast
  from insert_twice [OF fresh, of A B i1 k1 r1 d1 v1 i2 k2 r2 d2 v2] sub
  obtain s1 s2 symb where
    "SymbolTable_insert self q1 B d1 v1 = Inr s1" "SymbolTable_insert s1 q2 A d2 v2 = Inr s2"
    "lookup s2 sc n = Some symb" "type symb = (if derives_from A B then A else B)"
    "issues s2 = issues self @ obscured v1 v2 n"
    unfolding q1 q2 by auto
  then show "\<exists>s1 s2 symb.
            SymbolTable_insert self q1 B d1 v1 = Inr s1
          \<and> SymbolTable_insert s1 q2 A d2 v2 = Inr s2
          \<and> lookup s2 sc n = Some symb \<and> type symb = B
          \<and> filter is_IncompatibleType (issues s2) = filter is_IncompatibleType (issues self)
          \<and> (v1 = None \<or> v2 = None \<longrightarrow> issues s2 = issues self)"
    using AB by auto
next
  from insert_new [of q1 i1 k1 r1 n self T d1 v1] fresh
  obtain s1 where s1: "SymbolTable_insert self q1 T d1 v1 = Inr s1"
    and l1: "lookup s1 sc n = Some ((VarSymbol n T (LeafNode i1 k1 r1 n))
                      \<lparr>decl_name := (if d1 = None then None else Some (LeafNode i1 k1 r1 n)),
                       decl_node := d1, value_node := v1\<rparr>)"
    and i1: "issues s1 = issues self"
    unfolding q1 by auto
  let ?sy = "(VarSymbol n T (LeafNode i1 k1 r1 n))
                      \<lparr>decl_name := (if d1 = None then None else Some (LeafNode i1 k1 r1 n)),
                       decl_node := d1, value_node := v1\<rparr>"
  have ty: "type ?sy = T" and vl: "value_node ?sy = v1"
    by (simp_all add: VarSymbol_def)
  from insert_old [of q2 i2 k2 r2 n s1 ?sy T d2 v2] l1 ty derives_from_refl [of T]
  obtain s2 symb where s2: "SymbolTable_insert s1 q2 T d2 v2 = Inr s2"
    and l2: "lookup s2 sc n = Some symb"
    and t2: "type symb = T"
    and i2: "issues s2 = issues s1 @ obscured (value_node ?sy) v2 n"
    unfolding q2 by auto
  show "\<exists>s1 s2 symb1 symb2.
            SymbolTable_insert self q1 T d1 v1 = Inr s1
          \<and> lookup s1 sc n = Some symb1 \<and> type symb1 = T
          \<and> SymbolTable_insert s1 q2 T d2 v2 = Inr s2
          \<and> lookup s2 sc n = Some symb2 \<and> type symb2 = T
          \<and> filter is_IncompatibleType (issues s2) = filter is_IncompatibleType (issues self)
          \<and> (v1 = None \<or> v2 = None \<longrightarrow> issues s2 = issues self)"
    using s1 l1 ty s2 l2 t2 i2 i1 vl by auto
qed


lemma ex_first_insert:
  "SymbolTable_insert SymbolTable_init (QName BaseScope (Some (Leaf ex_A1))) Species None None
     = Inr ex_table_A"
  by (simp add: SymbolTable_insert_def SymbolTable_init_def leaf_table_def ex_A1_def
      ex_table_A_def store_symbol_def Let_def)

theorem insert_incompatible_witness:
  "SymbolTable_insert SymbolTable_init (QName BaseScope (Some (Leaf ex_A1))) Species None None
     = Inr ex_table_A
   \<and> lookup ex_table_A BaseScope ''A'' = Some (VarSymbol ''A'' Species ex_A1)
   \<and> \<not> derives_from Compartment Species \<and> \<not> derives_from Species Compartment
   \<and> SymbolTable_insert ex_table_A (QName BaseScope (Some (Leaf ex_A2))) Compartment None None =
       Inr (ex_table_A\<lparr>issues :=
              [IncompatibleType Species (SrcRange (SrcPosition 1 1) (SrcPosition 1 2))
                 Compartment (SrcRange (SrcPosition 2 1) (SrcPosition 2 2))],
            qnames := [QName BaseScope (Some (Leaf ex_A1)), QName BaseScope (Some (Leaf ex_A2))]\<rparr>)"
proof -
  have l: "lookup ex_table_A BaseScope ''A'' = Some (VarSymbol ''A'' Species ex_A1)"
    by (simp add: lookup_def ex_table_A_def)
  have n1: "\<not> derives_from Compartment (type (VarSymbol ''A'' Species ex_A1))"
    by (simp add: derives_from_def derives_from_param_def VarSymbol_def)
  have n2: "\<not> derives_from (type (VarSymbol ''A'' Species ex_A1)) Compartment"
    by (simp add: derives_from_def derives_from_param_def VarSymbol_def)
  have q: "qname_name (QName BaseScope (Some (Leaf ex_A2)))
             = Some (Leaf (LeafNode 1 Name (SrcRange (SrcPosition 2 1) (SrcPosition 2 2)) ''A''))"
    by (simp add: ex_A2_def)
  have l': "lookup ex_table_A (scope (QName BaseScope (Some (Leaf ex_A2)))) ''A''
             = Some (VarSymbol ''A'' Species ex_A1)"
    using l by simp
  from insert_incompatible [OF q l' n1 n2, of None None] l n1 n2 ex_first_insert
  show ?thesis
    by (simp add: VarSymbol_def ex_A1_def ex_table_A_def)
qed

theorem narrowing_order_independent_witness:
  "lookup SymbolTable_init BaseScope ''A'' = None \<and> derives_from Species Parameter
   \<and> (\<exists>s1 s2 symb.
         SymbolTable_insert SymbolTable_init (QName BaseScope (Some (Leaf ex_A1))) Parameter None None = Inr s1
       \<and> SymbolTable_insert s1 (QName BaseScope (Some (Leaf ex_A2))) Species None None = Inr s2
       \<and> lookup s2 BaseScope ''A'' = Some symb \<and> type symb = Species \<and> issues s2 = [])
   \<and> (\<exists>s1 s2 symb.
         SymbolTable_insert SymbolTable_init (QName BaseScope (Some (Leaf ex_A1))) Species None None = Inr s1
       \<and> SymbolTable_insert s1 (QName BaseScope (Some (Leaf ex_A2))) Parameter None None = Inr s2
       \<and> lookup s2 BaseScope ''A'' = Some symb \<and> type symb = Species \<and> issues s2 = [])"
proof -
  have f: "lookup SymbolTable_init BaseScope ''A'' = None"
    by (simp add: lookup_def SymbolTable_init_def)
  have d: "derives_from Species Parameter"
    by (simp add: derives_from_def derives_from_param_def)
  have i: "issues SymbolTable_init = []"
    by (simp add: SymbolTable_init_def)
  from narrowing_order_independent [OF f d ex_A1_def [THEN arg_cong [where f = "\<lambda>x. QName BaseScope (Some (Leaf x))"]]
      ex_A2_def [THEN arg_cong [where f = "\<lambda>x. QName BaseScope (Some (Leaf x))"]], of None None None None]
  show ?thesis
    using f d i by simp blast
qed


section \<open>Unique names\<close>

lemma probe_first:
  "\<exists>m\<ge>i. probe prfx names i = format_name prfx m \<and> format_name prfx m \<notin> set names
       \<and> (\<forall>j. i \<le> j \<and> j < m \<longrightarrow> format_name prfx j \<in> set names)"
proof (induction prfx names i rule: probe.induct)
  case (1 prfx names i)
  show ?case
  proof (cases "format_name prfx i \<in> set names")
    case False
    then have "probe prfx names i = format_name prfx i"
      by (subst probe.simps) simp
    with False show ?thesis by auto
  next
    case True
    then have e: "probe prfx names i = probe prfx names (i + 1)"
      by (subst probe.simps) simp
    from "1.IH" [OF refl] True
    obtain m where m: "m \<ge> i + 1" "probe prfx names (i + 1) = format_name prfx m"
      "format_name prfx m \<notin> set names"
      "\<forall>j. i + 1 \<le> j \<and> j < m \<longrightarrow> format_name prfx j \<in> set names"
      by auto
    have "\<forall>j. i \<le> j \<and> j < m \<longrightarrow> format_name prfx j \<in> set names"
    proof (intro allI impI)
      fix j assume "i \<le> j \<and> j < m"
      then have "j = i \<or> (i + 1 \<le> j \<and> j < m)" by arith
      with True m(4) show "format_name prfx j \<in> set names" by auto
    qed
    with m e show ?thesis by (intro exI [of _ m]) simp
  qed
qed


lemma format_name_0: "format_name p 0 = p @ ''0''"
  by (simp add: format_name_def str_nat.simps digit_char_def)

lemma format_name_1: "format_name p (Suc 0) = p @ ''1''"
  by (simp add: format_name_def str_nat.simps digit_char_def)

lemma format_name_2: "format_name p 2 = p @ ''2''"
  by (simp add: format_name_def str_nat.simps digit_char_def)

lemma probe_k2:
  assumes "set names = {''k0'', ''k1''}"
  shows "probe ''k'' names 0 = ''k2''"
proof -
  from probe_first [of 0 "''k''" names]
  obtain m where m: "probe ''k'' names 0 = format_name ''k'' m"
    "format_name ''k'' m \<notin> set names"
    "\<forall>j. 0 \<le> j \<and> j < m \<longrightarrow> format_name ''k'' j \<in> set names"
    by blast
  have in0: "format_name ''k'' 0 \<in> set names" and in1: "format_name ''k'' (Suc 0) \<in> set names"
    and out2: "format_name ''k'' 2 \<notin> set names"
    using assms by (simp_all add: format_name_0 format_name_1 format_name_2)
  have "m \<noteq> 0" using m(2) in0 by (intro notI) simp
  moreover have "m \<noteq> 1" using m(2) in1 by (intro notI) simp
  moreover have "\<not> 2 < m" using m(3) out2 by blast
  ultimately have "m = 2" by arith
  with m(1) show ?thesis by (simp add: format_name_2)
qed

text \<open>
  Claim C9.  Without a scope, \<^verbatim>\<open>get_unique_name\<close> returns the candidate
  \<open>prfx m\<close> of the least counter \<open>m\<close> whose candidate is not a name of any scope,
  and with a scope the one of the least counter whose candidate is not a key of that
  scope's dictionary; the name returned is not in the table; and when the names of the
  table are \<^verbatim>\<open>k0\<close> and \<^verbatim>\<open>k1\<close>, the prfx \<^verbatim>\<open>k\<close> gives \<^verbatim>\<open>k2\<close>.
\<close>

theorem get_unique_name_first_unused:
  "(\<exists>m. fst (get_unique_name self prfx None) = format_name prfx m
        \<and> format_name prfx m \<notin> get_all_names self
        \<and> (\<forall>j<m. format_name prfx j \<in> get_all_names self))
   \<and> (\<exists>m. fst (get_unique_name self prfx (Some sc)) = format_name prfx m
        \<and> format_name prfx m \<notin> fst ` set (fst (leaf_table self sc))
        \<and> (\<forall>j<m. format_name prfx j \<in> fst ` set (fst (leaf_table self sc))))
   \<and> fst (get_unique_name self prfx None) \<notin> get_all_names self
   \<and> (get_all_names self = {''k0'', ''k1''}
        \<longrightarrow> fst (get_unique_name self ''k'' None) = ''k2'')"
proof (intro conjI)
  from probe_first [of 0 prfx "all_names self"]
  obtain m where m: "probe prfx (all_names self) 0 = format_name prfx m"
    "format_name prfx m \<notin> set (all_names self)"
    "\<forall>j. 0 \<le> j \<and> j < m \<longrightarrow> format_name prfx j \<in> set (all_names self)"
    by blast
  then show "\<exists>m. fst (get_unique_name self prfx None) = format_name prfx m
        \<and> format_name prfx m \<notin> get_all_names self
        \<and> (\<forall>j<m. format_name prfx j \<in> get_all_names self)"
    by (intro exI [of _ m]) (simp add: get_unique_name_def get_all_names_list)
  from m show "fst (get_unique_name self prfx None) \<notin> get_all_names self"
    by (simp add: get_unique_name_def get_all_names_list)
next
  obtain d self1 where d: "leaf_table self sc = (d, self1)"
    by (cases "leaf_table self sc")
  from probe_first [of 0 prfx "map fst d"]
  obtain m where m: "probe prfx (map fst d) 0 = format_name prfx m"
    "format_name prfx m \<notin> set (map fst d)"
    "\<forall>j. 0 \<le> j \<and> j < m \<longrightarrow> format_name prfx j \<in> set (map fst d)"
    by blast
  then show "\<exists>m. fst (get_unique_name self prfx (Some sc)) = format_name prfx m
        \<and> format_name prfx m \<notin> fst ` set (fst (leaf_table self sc))
        \<and> (\<forall>j<m. format_name prfx j \<in> fst ` set (fst (leaf_table self sc)))"
    using d by (intro exI [of _ m]) (simp add: get_unique_name_def)
next
  show "get_all_names self = {''k0'', ''k1''}
        \<longrightarrow> fst (get_unique_name self ''k'' None) = ''k2''"
    by (simp add: get_unique_name_def get_all_names_list probe_k2)
qed

theorem get_unique_name_first_unused_witness:
  "get_all_names ex_table_k = {''k0'', ''k1''}
   \<and> fst (get_unique_name ex_table_k ''k'' None) = ''k2''
   \<and> ''k2'' \<notin> get_all_names ex_table_k"
proof -
  have n: "get_all_names ex_table_k = {''k0'', ''k1''}"
    by (simp add: get_all_names_def ex_table_k_def)
  from get_unique_name_first_unused [of ex_table_k "''k''" BaseScope] n
  show ?thesis by simp
qed

section \<open>The syntax issue pass\<close>

lemma candidates_simps [simp]:
  "candidates h [] = []"
  "candidates h (None # ns) = candidates h ns"
  "candidates h (Some n # ns) =
     (case syntax_issue h n of None \<Rightarrow> candidates h ns | Some i \<Rightarrow> i # candidates h ns)"
  by (simp_all add: candidates_def map_filter_simps split: option.splits)

lemma record_loop_acc: "record_loop h ns lines (acc @ acc') = acc @ record_loop h ns lines acc'"
  by (induction h ns lines acc' rule: record_loop.induct) (simp_all split: option.splits)

lemma record_loop_acc0: "record_loop h ns lines acc = acc @ record_loop h ns lines []"
  using record_loop_acc [of h ns lines acc "[]"] by simp

lemma record_loop_subseq: "subseq (record_loop h ns lines []) (candidates h ns)"
proof (induction ns arbitrary: lines)
  case Nil
  then show ?case by simp
next
  case (Cons c ns)
  show ?case
  proof (cases c)
    case None
    then show ?thesis using Cons by simp
  next
    case (Some n)
    show ?thesis
    proof (cases "syntax_issue h n")
      case None
      then show ?thesis using Some Cons by simp
    next
      case (Some i)
      have "record_loop h ns (insert (issue_line i) lines) [i]
              = i # record_loop h ns (insert (issue_line i) lines) []"
        using record_loop_acc0 [of h ns _ "[i]"] by simp
      then show ?thesis using Some \<open>c = Some n\<close> Cons
        by (auto intro: subseq_Cons')
    qed
  qed
qed

lemma record_loop_line:
  "filter (\<lambda>i. issue_line i = L) (record_loop h ns lines [])
     = (if L \<in> lines then [] else take 1 (filter (\<lambda>i. issue_line i = L) (candidates h ns)))"
proof (induction ns arbitrary: lines)
  case Nil
  then show ?case by simp
next
  case (Cons c ns)
  show ?case
  proof (cases c)
    case None
    then show ?thesis using Cons by simp
  next
    case (Some n)
    show ?thesis
    proof (cases "syntax_issue h n")
      case None
      then show ?thesis using Some Cons by simp
    next
      case (Some i)
      have e: "record_loop h ns (insert (issue_line i) lines) [i]
              = i # record_loop h ns (insert (issue_line i) lines) []"
        using record_loop_acc0 [of h ns _ "[i]"] by simp
      show ?thesis using Some \<open>c = Some n\<close> Cons [of "insert (issue_line i) lines"] Cons [of lines] e
        by auto
    qed
  qed
qed

lemma record_loop_distinct:
  "distinct (map issue_line (record_loop h ns lines []))
   \<and> set (map issue_line (record_loop h ns lines [])) \<inter> lines = {}"
proof (induction ns arbitrary: lines)
  case Nil
  then show ?case by simp
next
  case (Cons c ns)
  show ?case
  proof (cases c)
    case None
    then show ?thesis using Cons by simp
  next
    case (Some n)
    show ?thesis
    proof (cases "syntax_issue h n")
      case None
      then show ?thesis using Some Cons by simp
    next
      case (Some i)
      have e: "record_loop h ns (insert (issue_line i) lines) [i]
              = i # record_loop h ns (insert (issue_line i) lines) []"
        using record_loop_acc0 [of h ns _ "[i]"] by simp
      show ?thesis using Some \<open>c = Some n\<close> Cons [of "insert (issue_line i) lines"] Cons [of lines] e
        by auto
    qed
  qed
qed


lemma candidates_append: "candidates h (xs @ ys) = candidates h xs @ candidates h ys"
  by (simp add: candidates_def map_filter_def)

lemma record_loop_append:
  "record_loop h (xs @ ys) lines [] =
     record_loop h xs lines [] @
     record_loop h ys (lines \<union> set (map issue_line (candidates h xs))) []"
proof (induction xs arbitrary: lines)
  case Nil
  then show ?case by simp
next
  case (Cons c xs)
  show ?case
  proof (cases c)
    case None
    then show ?thesis using Cons by simp
  next
    case (Some n)
    show ?thesis
    proof (cases "syntax_issue h n")
      case None
      then show ?thesis using Some Cons by simp
    next
      case (Some i)
      have e: "\<And>zs S. record_loop h zs S [i] = i # record_loop h zs S []"
        using record_loop_acc0 [of h _ _ "[i]"] by simp
      have u: "insert (issue_line i) lines \<union> set (map issue_line (candidates h xs))
                = lines \<union> insert (issue_line i) (set (map issue_line (candidates h xs)))"
        by auto
      have v: "issue_line i \<in> lines \<Longrightarrow>
                lines \<union> insert (issue_line i) (set (map issue_line (candidates h xs)))
                  = lines \<union> set (map issue_line (candidates h xs))"
        by auto
      show ?thesis
        using Some \<open>c = Some n\<close> Cons [of "insert (issue_line i) lines"] Cons [of lines] e u v
        by (simp del: set_map)
    qed
  qed
qed

lemma record_loop_node:
  assumes "syntax_issue h node = Some X"
  shows "\<exists>rest. record_loop h (pre @ Some node # post) {} [] =
            record_loop h pre {} [] @
            (if issue_line X \<in> set (map issue_line (candidates h pre)) then [] else [X]) @ rest
          \<and> issue_line X \<notin> set (map issue_line rest)"
proof -
  let ?S = "set (map issue_line (candidates h pre))"
  have a: "record_loop h (pre @ Some node # post) {} [] =
            record_loop h pre {} [] @ record_loop h (Some node # post) ?S []"
    using record_loop_append [of h pre "Some node # post" "{}"] by simp
  show ?thesis
  proof (cases "issue_line X \<in> ?S")
    case True
    then have "record_loop h (Some node # post) ?S [] = record_loop h post ?S []"
      using assms by simp
    moreover have "set (map issue_line (record_loop h post ?S [])) \<inter> ?S = {}"
      using record_loop_distinct [of h post ?S] by blast
    ultimately show ?thesis using a True by auto
  next
    case False
    have "record_loop h post (insert (issue_line X) ?S) [X]
            = X # record_loop h post (insert (issue_line X) ?S) []"
      using record_loop_acc0 [of h post _ "[X]"] by simp
    then have "record_loop h (Some node # post) ?S []
            = X # record_loop h post (insert (issue_line X) ?S) []"
      using assms False by simp
    moreover have "set (map issue_line (record_loop h post (insert (issue_line X) ?S) []))
                     \<inter> insert (issue_line X) ?S = {}"
      using record_loop_distinct [of h post "insert (issue_line X) ?S"] by blast
    ultimately show ?thesis using a False by auto
  qed
qed

lemma record_loop_silent:
  assumes "syntax_issue h node = None"
  shows "record_loop h (pre @ Some node # post) {} [] = record_loop h (pre @ post) {} []"
  using record_loop_append [of h pre "Some node # post" "{}"]
        record_loop_append [of h pre post "{}"] assms
  by simp

text \<open>
  Claim C6.  The pass records at most one issue per line: the lines of the recorded
  issues are pairwise different, the recorded issues are a subsequence of the signalled
  ones, and on every line the recorded issues are exactly the first issue signalled on
  that line (none if none is signalled).  When two non-blank ErrorTokens start on one line
  and no earlier child signals an issue on that line, the issues recorded on the line are
  the one \<^verbatim>\<open>UnexpectedTokenIssue\<close> of the first token.
\<close>

theorem one_syntax_issue_per_line:
  "(\<exists>res. record_syntax_issues h (Trunk k r ch) = Inr res
        \<and> distinct (map issue_line res)
        \<and> subseq res (candidates h ch)
        \<and> (\<forall>L. filter (\<lambda>i. issue_line i = L) res
                 = take 1 (filter (\<lambda>i. issue_line i = L) (candidates h ch))))
   \<and> (leaf_kind t1 = ErrorToken \<and> leaf_kind t2 = ErrorToken
        \<and> \<not> strip_empty (leaf_text t1) \<and> \<not> strip_empty (leaf_text t2)
        \<and> line (start (leaf_range t1)) = L \<and> line (start (leaf_range t2)) = L
        \<and> L \<notin> set (map issue_line (candidates h pre))
      \<longrightarrow> (\<exists>res. record_syntax_issues h
                    (Trunk k r (pre @ Some (Leaf t1) # mid @ Some (Leaf t2) # post)) = Inr res
                \<and> filter (\<lambda>i. issue_line i = L) res
                     = [UnexpectedTokenIssue (leaf_range t1) (leaf_text t1)]))"
proof (intro conjI impI)
  show "\<exists>res. record_syntax_issues h (Trunk k r ch) = Inr res
        \<and> distinct (map issue_line res)
        \<and> subseq res (candidates h ch)
        \<and> (\<forall>L. filter (\<lambda>i. issue_line i = L) res
                 = take 1 (filter (\<lambda>i. issue_line i = L) (candidates h ch)))"
    using record_loop_distinct [of h ch "{}"] record_loop_subseq [of h ch "{}"]
      record_loop_line [of _ h ch "{}"]
    by (simp add: record_syntax_issues_def)
next
  assume a: "leaf_kind t1 = ErrorToken \<and> leaf_kind t2 = ErrorToken
        \<and> \<not> strip_empty (leaf_text t1) \<and> \<not> strip_empty (leaf_text t2)
        \<and> line (start (leaf_range t1)) = L \<and> line (start (leaf_range t2)) = L
        \<and> L \<notin> set (map issue_line (candidates h pre))"
  let ?ch = "pre @ Some (Leaf t1) # mid @ Some (Leaf t2) # post"
  let ?X = "UnexpectedTokenIssue (leaf_range t1) (leaf_text t1)"
  have s: "syntax_issue h (Leaf t1) = Some ?X"
    using a by (simp add: syntax_issue_def)
  have l: "issue_line ?X = L"
    using a by (simp add: issue_line_def)
  have p: "filter (\<lambda>i. issue_line i = L) (candidates h pre) = []"
  proof -
    from a have "\<forall>x \<in> set (candidates h pre). issue_line x \<noteq> L" by force
    then show ?thesis by (simp add: filter_empty_conv)
  qed
  have "candidates h ?ch = candidates h pre @ ?X # candidates h (mid @ Some (Leaf t2) # post)"
    using s by (simp add: candidates_append)
  then have "take 1 (filter (\<lambda>i. issue_line i = L) (candidates h ?ch)) = [?X]"
    using p l by simp
  then show "\<exists>res. record_syntax_issues h (Trunk k r ?ch) = Inr res
                \<and> filter (\<lambda>i. issue_line i = L) res = [?X]"
    using record_loop_line [of L h ?ch "{}"]
    by (simp add: record_syntax_issues_def)
qed

section \<open>The leaf chain\<close>


lemma link_append:
  "link (xs @ ys) last0 h = link ys (fst (link xs last0 h)) (snd (link xs last0 h))"
  by (induction xs arbitrary: last0 h) simp_all

lemma fst_link: "fst (link xs last0 h) = (if xs = [] then last0 else Some (last xs))"
  by (induction xs arbitrary: last0 h) simp_all

lemma scan_leaves_loop_Cons: "scan_leaves_loop (c # cs) = opt_leaves c @ scan_leaves_loop cs"
  by (cases c) simp_all

lemma scan_leaves_loop_append:
  "scan_leaves_loop (xs @ ys) = scan_leaves_loop xs @ scan_leaves_loop ys"
  by (induction xs) (simp_all add: scan_leaves_loop_Cons)

lemma set_leaf_pointers_link:
  "set_leaf_pointers t last0 h =
     (case t of None \<Rightarrow> None | Some n \<Rightarrow> fst (link (opt_leaves t) last0 h),
      snd (link (opt_leaves t) last0 h))"
  "set_leaf_pointers_loop cs last0 h = link (scan_leaves_loop cs) last0 h"
proof (induction t last0 h and cs last0 h rule: set_leaf_pointers_set_leaf_pointers_loop.induct)
  case (5 child cs last0 h)
  obtain res h1 where r: "set_leaf_pointers child last0 h = (res, h1)"
    by (cases "set_leaf_pointers child last0 h")
  let ?last1 = "case res of Some l \<Rightarrow> Some l | None \<Rightarrow> last0"
  from "5.IH"(1) r
  have res: "res = (case child of None \<Rightarrow> None | Some n \<Rightarrow> fst (link (opt_leaves child) last0 h))"
    and h1: "h1 = snd (link (opt_leaves child) last0 h)" by simp_all
  have l1: "?last1 = fst (link (opt_leaves child) last0 h)"
    using res by (cases child) (auto simp: fst_link split: option.splits)
  have "set_leaf_pointers_loop (child # cs) last0 h = set_leaf_pointers_loop cs ?last1 h1"
    using r by simp
  also have "\<dots> = link (scan_leaves_loop cs) ?last1 h1"
    using "5.IH"(2) [OF r [symmetric] refl refl] by simp
  also have "\<dots> = link (scan_leaves_loop (child # cs)) last0 h"
    using l1 h1 by (simp add: scan_leaves_loop_Cons link_append)
  finally show ?case .
qed (simp_all add: Let_def)


lemma link_next:
  assumes "distinct (map leaf_id (opt_list last0 @ ls))"
  shows "(\<forall>j. j + 1 < length (opt_list last0 @ ls) \<longrightarrow>
            next_ptr (snd (link ls last0 h)) (leaf_id ((opt_list last0 @ ls) ! j))
              = Some ((opt_list last0 @ ls) ! (j + 1)))
       \<and> (\<forall>i. i \<notin> leaf_id ` set (butlast (opt_list last0 @ ls)) \<longrightarrow>
            next_ptr (snd (link ls last0 h)) i = next_ptr h i)"
  using assms
proof (induction ls arbitrary: last0 h)
  case Nil
  then show ?case by (cases last0) simp_all
next
  case (Cons l ls)
  let ?h1 = "snd (set_leaf_pointers (Some (Leaf l)) last0 h)"
  let ?h' = "snd (link ls (Some l) ?h1)"
  have d: "distinct (map leaf_id (opt_list (Some l) @ ls))"
    using Cons.prems by (cases last0) simp_all
  note IH = Cons.IH [OF d, of ?h1]
  have IH1: "\<And>j. j + 1 < length (l # ls) \<Longrightarrow>
               next_ptr ?h' (leaf_id ((l # ls) ! j)) = Some ((l # ls) ! (j + 1))"
    using IH by simp
  have IH2: "\<And>i. i \<notin> leaf_id ` set (butlast (l # ls)) \<Longrightarrow> next_ptr ?h' i = next_ptr ?h1 i"
    using IH by simp
  show ?case
  proof (cases last0)
    case None
    then have "next_ptr ?h1 = next_ptr h" by (simp add: Let_def)
    with None IH1 IH2 show ?thesis by simp
  next
    case (Some p)
    then have h1: "next_ptr ?h1 = (next_ptr h)(leaf_id p := Some l)" by (simp add: Let_def)
    have pn: "leaf_id p \<notin> leaf_id ` set (l # ls)"
      using Cons.prems Some by auto
    then have pb: "leaf_id p \<notin> leaf_id ` set (butlast (l # ls))"
      using in_set_butlastD [of _ "l # ls"] by blast
    have a: "\<forall>j. j + 1 < length (p # l # ls) \<longrightarrow>
               next_ptr ?h' (leaf_id ((p # l # ls) ! j)) = Some ((p # l # ls) ! (j + 1))"
    proof (intro allI impI)
      fix j assume j: "j + 1 < length (p # l # ls)"
      show "next_ptr ?h' (leaf_id ((p # l # ls) ! j)) = Some ((p # l # ls) ! (j + 1))"
      proof (cases j)
        case 0
        then show ?thesis using IH2 [OF pb] h1 by simp
      next
        case (Suc j')
        then show ?thesis using IH1 [of j'] j by simp
      qed
    qed
    have b: "\<forall>i. i \<notin> leaf_id ` set (butlast (p # l # ls)) \<longrightarrow> next_ptr ?h' i = next_ptr h i"
    proof (intro allI impI)
      fix i assume "i \<notin> leaf_id ` set (butlast (p # l # ls))"
      then have "i \<noteq> leaf_id p" "i \<notin> leaf_id ` set (butlast (l # ls))" by auto
      then show "next_ptr ?h' i = next_ptr h i" using IH2 h1 by simp
    qed
    from a b Some show ?thesis by simp
  qed
qed

lemma link_prev:
  assumes "distinct (map leaf_id ls)"
  shows "(\<forall>j<length ls. prev_ptr (snd (link ls last0 h)) (leaf_id (ls ! j))
              = (if j = 0 then last0 else Some (ls ! (j - 1))))
       \<and> (\<forall>i. i \<notin> leaf_id ` set ls \<longrightarrow> prev_ptr (snd (link ls last0 h)) i = prev_ptr h i)"
  using assms
proof (induction ls arbitrary: last0 h)
  case Nil
  then show ?case by simp
next
  case (Cons l ls)
  let ?h1 = "snd (set_leaf_pointers (Some (Leaf l)) last0 h)"
  let ?h' = "snd (link ls (Some l) ?h1)"
  have d: "distinct (map leaf_id ls)" and ln: "leaf_id l \<notin> leaf_id ` set ls"
    using Cons.prems by auto
  note IH = Cons.IH [OF d, of "Some l" ?h1]
  have h1: "prev_ptr ?h1 = (prev_ptr h)(leaf_id l := last0)"
    by (cases last0) (simp_all add: Let_def)
  have a: "\<forall>j<length (l # ls). prev_ptr ?h' (leaf_id ((l # ls) ! j))
              = (if j = 0 then last0 else Some ((l # ls) ! (j - 1)))"
  proof (intro allI impI)
    fix j assume j: "j < length (l # ls)"
    show "prev_ptr ?h' (leaf_id ((l # ls) ! j)) = (if j = 0 then last0 else Some ((l # ls) ! (j - 1)))"
    proof (cases j)
      case 0
      then show ?thesis using IH ln h1 by simp
    next
      case (Suc j')
      then have "prev_ptr ?h' (leaf_id (ls ! j')) = (if j' = 0 then Some l else Some (ls ! (j' - 1)))"
        using IH j by simp
      then show ?thesis using Suc by (cases j') simp_all
    qed
  qed
  have b: "\<forall>i. i \<notin> leaf_id ` set (l # ls) \<longrightarrow> prev_ptr ?h' i = prev_ptr h i"
    using IH h1 by simp
  from a b show ?case by simp
qed

lemma walk_chain:
  assumes "\<forall>j<length ls. f (leaf_id (ls ! j)) = (if j + 1 < length ls then Some (ls ! (j + 1)) else None)"
      and "k < length ls"
  shows "walk f (ls ! k) = Some (drop k ls)"
  using assms(2)
proof (induction "length ls - k" arbitrary: k)
  case 0
  then show ?case by simp
next
  case (Suc d)
  show ?case
  proof (cases "k + 1 < length ls")
    case False
    with Suc.prems have k: "k = length ls - 1" by arith
    have "f (leaf_id (ls ! k)) = None" using assms(1) Suc.prems False by simp
    then have "walk f (ls ! k) = Some [ls ! k]" by (subst walk.simps) simp
    moreover have "drop k ls = [ls ! k]"
      using Suc.prems False by (metis Cons_nth_drop_Suc drop_all Suc_eq_plus1 not_less)
    ultimately show ?thesis by simp
  next
    case True
    have "f (leaf_id (ls ! k)) = Some (ls ! (k + 1))" using assms(1) Suc.prems True by simp
    then have "walk f (ls ! k) = Option.bind (walk f (ls ! (k + 1))) (\<lambda>xs. Some (ls ! k # xs))"
      by (subst walk.simps) simp
    moreover have "walk f (ls ! (k + 1)) = Some (drop (k + 1) ls)"
      using Suc.hyps(1) [of "k + 1"] Suc.hyps(2) True by simp
    moreover have "drop k ls = ls ! k # drop (k + 1) ls"
      using Suc.prems by (simp add: Cons_nth_drop_Suc)
    ultimately show ?thesis by simp
  qed
qed


lemma decl_modifiers_loop_leaves:
  assumes "distinct (map leaf_id (scan_leaves_loop (v # t # cs)))"
  shows "distinct (map leaf_id (scan_leaves_loop (decl_modifiers_loop cs v t)))
       \<and> set (scan_leaves_loop (decl_modifiers_loop cs v t)) \<subseteq> set (scan_leaves_loop (v # t # cs))"
  using assms
proof (induction cs arbitrary: v t)
  case Nil
  then show ?case by simp
next
  case (Cons c cs)
  show ?case
  proof (cases "is_VarModifier c")
    case True
    have "distinct (map leaf_id (scan_leaves_loop (c # t # cs)))"
      using Cons.prems by (auto simp: scan_leaves_loop_Cons)
    from Cons.IH [OF this] True show ?thesis
      by (auto simp: scan_leaves_loop_Cons)
  next
    case False
    have "distinct (map leaf_id (scan_leaves_loop (v # c # cs)))"
      using Cons.prems by (auto simp: scan_leaves_loop_Cons)
    from Cons.IH [OF this] False show ?thesis
      by (auto simp: scan_leaves_loop_Cons)
  qed
qed

lemma transform_tree_ids:
  "transform_tree f g n t = Inr (r, n') \<Longrightarrow>
     n \<le> n' \<and> distinct (map leaf_id (opt_leaves r)) \<and> leaf_id ` set (opt_leaves r) \<subseteq> {n..<n'}"
  "transform_children f g n cs = Inr (rs, n') \<Longrightarrow>
     n \<le> n' \<and> distinct (map leaf_id (scan_leaves_loop rs))
       \<and> leaf_id ` set (scan_leaves_loop rs) \<subseteq> {n..<n'}"
proof (induction f g n t and f g n cs arbitrary: r n' and rs n'
       rule: transform_tree_transform_children.induct)
  case (1 f g n)
  then show ?case by simp
next
  case (2 f g n ty v p)
  then show ?case by (auto split: option.splits NodeClass.splits)
next
  case (3 f g n d ch p)
  from "3.prems" obtain k children where k: "TREE_MAP d = Some (TrunkClass k)"
    and c: "transform_children f g n ch = Inr (children, n')"
    and r: "r = Some (Trunk k (g p) (if k = DeclModifiers then decl_modifiers_loop children None None
                             else children))"
    by (auto split: option.splits NodeClass.splits sum.splits)
  from "3.IH" [OF k refl c] have ih: "n \<le> n'" "distinct (map leaf_id (scan_leaves_loop children))"
    "leaf_id ` set (scan_leaves_loop children) \<subseteq> {n..<n'}" by simp_all
  show ?case
  proof (cases "k = DeclModifiers")
    case False
    with r ih show ?thesis by simp
  next
    case True
    have "distinct (map leaf_id (scan_leaves_loop (None # None # children)))"
      using ih by simp
    from decl_modifiers_loop_leaves [OF this] True r ih show ?thesis
      by auto
  qed
next
  case (4 f g n)
  then show ?case by simp
next
  case (5 f g n c cs)
  from "5.prems" obtain c' n1 cs' where c: "transform_tree f g n c = Inr (c', n1)"
    and cs: "transform_children f g n1 cs = Inr (cs', n')" and rs: "rs = c' # cs'"
    by (auto split: sum.splits)
  from "5.IH"(1) [OF c] have a: "n \<le> n1" "distinct (map leaf_id (opt_leaves c'))"
    "leaf_id ` set (opt_leaves c') \<subseteq> {n..<n1}" by simp_all
  from "5.IH"(2) [OF c refl cs] have b: "n1 \<le> n'" "distinct (map leaf_id (scan_leaves_loop cs'))"
    "leaf_id ` set (scan_leaves_loop cs') \<subseteq> {n1..<n'}" by simp_all
  have "leaf_id ` set (opt_leaves c') \<inter> leaf_id ` set (scan_leaves_loop cs') = {}"
    using a(3) b(3) by fastforce
  with a b rs show ?case
    by (auto simp: scan_leaves_loop_Cons)
qed

text \<open>
  Claim C8.  Let a tree be built by \<open>transform_tree\<close> and its leaves be linked by
  \<open>set_leaf_pointers\<close> from \<^verbatim>\<open>None\<close>, and let \<open>ls\<close> be its leaves from left to right.
  The leaves are pairwise different objects; \<^verbatim>\<open>next\<close> of each leaf is the leaf after
  it and \<^verbatim>\<open>None\<close> for the last; \<^verbatim>\<open>prev\<close> of each leaf is the leaf before it and
  \<^verbatim>\<open>None\<close> for the first; so the walk along \<^verbatim>\<open>next\<close> from the first leaf ends and
  yields \<open>ls\<close>, and the walk along \<^verbatim>\<open>prev\<close> from the last leaf ends and yields
  \<open>rev ls\<close>.
\<close>

theorem leaf_chain_complete:
  assumes build: "transform_tree get_token_range get_tree_range n (Some tree) = Inr (Some root, n')"
      and ptrs: "set_leaf_pointers (Some root) None Links_init = (last0, h)"
      and ls: "ls = scan_leaves root"
  shows "distinct (map leaf_id ls)
       \<and> last0 = (if ls = [] then None else Some (last ls))
       \<and> (\<forall>j<length ls. next_ptr h (leaf_id (ls ! j))
              = (if j + 1 < length ls then Some (ls ! (j + 1)) else None))
       \<and> (\<forall>j<length ls. prev_ptr h (leaf_id (ls ! j))
              = (if j = 0 then None else Some (ls ! (j - 1))))
       \<and> (ls \<noteq> [] \<longrightarrow> walk (next_ptr h) (hd ls) = Some ls
                    \<and> walk (prev_ptr h) (last ls) = Some (rev ls))"
proof -
  have d: "distinct (map leaf_id ls)"
    using transform_tree_ids(1) [OF build] ls by simp
  have h: "h = snd (link ls None Links_init)" and l0: "last0 = fst (link ls None Links_init)"
    using ptrs ls by (simp_all add: set_leaf_pointers_link)
  have l0': "last0 = (if ls = [] then None else Some (last ls))"
    using l0 by (simp add: fst_link)
  from link_next [of None ls Links_init] d h
  have n1: "\<And>j. j + 1 < length ls \<Longrightarrow> next_ptr h (leaf_id (ls ! j)) = Some (ls ! (j + 1))"
    and n2: "\<And>i. i \<notin> leaf_id ` set (butlast ls) \<Longrightarrow> next_ptr h i = None"
    by (simp_all add: Links_init_def)
  have nx: "\<forall>j<length ls. next_ptr h (leaf_id (ls ! j))
              = (if j + 1 < length ls then Some (ls ! (j + 1)) else None)"
  proof (intro allI impI)
    fix j assume j: "j < length ls"
    show "next_ptr h (leaf_id (ls ! j)) = (if j + 1 < length ls then Some (ls ! (j + 1)) else None)"
    proof (cases "j + 1 < length ls")
      case True
      then show ?thesis using n1 by simp
    next
      case False
      with j have jl: "j = length ls - 1" by arith
      have "leaf_id (ls ! j) \<notin> leaf_id ` set (butlast ls)"
      proof
        assume "leaf_id (ls ! j) \<in> leaf_id ` set (butlast ls)"
        then obtain x where x: "x \<in> set (butlast ls)" "leaf_id x = leaf_id (ls ! j)" by auto
        then obtain i where i: "i < length (butlast ls)" "butlast ls ! i = x"
          by (auto simp: in_set_conv_nth)
        then have "ls ! i = x" "i < length ls" "i \<noteq> j"
          using jl by (simp_all add: nth_butlast)
        with x(2) d j show False
          by (metis distinct_conv_nth length_map nth_map)
      qed
      with n2 False show ?thesis by simp
    qed
  qed
  from link_prev [OF d, of None Links_init] h
  have pv: "\<forall>j<length ls. prev_ptr h (leaf_id (ls ! j))
              = (if j = 0 then None else Some (ls ! (j - 1)))"
    by simp
  have w: "ls \<noteq> [] \<longrightarrow> walk (next_ptr h) (hd ls) = Some ls
                    \<and> walk (prev_ptr h) (last ls) = Some (rev ls)"
  proof (intro impI conjI)
    assume ne: "ls \<noteq> []"
    then have "0 < length ls" by simp
    from walk_chain [OF nx this] ne show "walk (next_ptr h) (hd ls) = Some ls"
      by (simp add: hd_conv_nth)
    have "\<forall>j<length (rev ls). prev_ptr h (leaf_id (rev ls ! j))
              = (if j + 1 < length (rev ls) then Some (rev ls ! (j + 1)) else None)"
    proof (intro allI impI)
      fix j assume j: "j < length (rev ls)"
      then have r: "rev ls ! j = ls ! (length ls - 1 - j)" by (simp add: rev_nth)
      have "prev_ptr h (leaf_id (ls ! (length ls - 1 - j)))
              = (if length ls - 1 - j = 0 then None else Some (ls ! (length ls - 1 - j - 1)))"
        using pv j by simp
      moreover have "j + 1 < length ls \<Longrightarrow> rev ls ! (j + 1) = ls ! (length ls - 1 - j - 1)"
        by (simp add: rev_nth)
      moreover have "(length ls - 1 - j = 0) = (\<not> j + 1 < length ls)"
        using j by auto
      ultimately show "prev_ptr h (leaf_id (rev ls ! j))
              = (if j + 1 < length (rev ls) then Some (rev ls ! (j + 1)) else None)"
        using r by simp
    qed
    from walk_chain [OF this, of 0] ne show "walk (prev_ptr h) (last ls) = Some (rev ls)"
      by (simp add: last_conv_nth rev_nth)
  qed
  from d l0' nx pv w show ?thesis by blast
qed


text \<open>
  \<^verbatim>\<open>last_leaf\<close> of a trunk is the last of its leaves from left to right, and
  \<^verbatim>\<open>None\<close> when it has none.
\<close>

lemma last_leaf_scan:
  "last_leaf t = (case t of Leaf l \<Rightarrow> None
                  | Trunk k r ch \<Rightarrow> (if scan_leaves t = [] then None else Some (last (scan_leaves t))))"
  "last_leaf_loop cs = (if scan_leaves_loop (rev cs) = [] then None
                        else Some (last (scan_leaves_loop (rev cs))))"
proof (induction t and cs rule: last_leaf_last_leaf_loop.induct)
  case (1 k r ch)
  then show ?case by simp
next
  case (2 l)
  then show ?case by simp
next
  case 3
  then show ?case by simp
next
  case (4 cs)
  then show ?case by (simp add: scan_leaves_loop_append)
next
  case (5 l cs)
  then show ?case by (simp add: scan_leaves_loop_append)
next
  case (6 k r ch cs)
  then show ?case
    by (auto simp: scan_leaves_loop_append split: option.splits)
qed

text \<open>
  Claim C7, as amended.  A blank ErrorToken signals an unexpected newline at its start, a
  non-blank one an unexpected token with its range and text.  The last leaf of an
  ErrorNode is the last of the leaves below it; when that leaf has no next leaf the node
  signals an unexpected end of input at the leaf's range, and when it has one, or the
  node has no leaf, the node signals nothing.  A signalled issue is recorded once, at the
  node's place, unless an earlier child signalled an issue on the same line; then it is
  dropped.  No later issue is recorded on its line.
\<close>

theorem syntax_issue_per_node:
  "(leaf_kind l = ErrorToken \<and> strip_empty (leaf_text l)
      \<longrightarrow> syntax_issue h (Leaf l) = Some (UnexpectedNewlineIssue (start (leaf_range l))))
   \<and> (leaf_kind l = ErrorToken \<and> \<not> strip_empty (leaf_text l)
      \<longrightarrow> syntax_issue h (Leaf l) = Some (UnexpectedTokenIssue (leaf_range l) (leaf_text l)))
   \<and> last_leaf (Trunk ErrorNode r ch)
        = (if scan_leaves (Trunk ErrorNode r ch) = [] then None
           else Some (last (scan_leaves (Trunk ErrorNode r ch))))
   \<and> (scan_leaves (Trunk ErrorNode r ch) \<noteq> []
        \<and> next_ptr h (leaf_id (last (scan_leaves (Trunk ErrorNode r ch)))) = None
      \<longrightarrow> syntax_issue h (Trunk ErrorNode r ch)
            = Some (UnexpectedEOFIssue (leaf_range (last (scan_leaves (Trunk ErrorNode r ch))))))
   \<and> (scan_leaves (Trunk ErrorNode r ch) \<noteq> []
        \<and> next_ptr h (leaf_id (last (scan_leaves (Trunk ErrorNode r ch)))) \<noteq> None
      \<longrightarrow> syntax_issue h (Trunk ErrorNode r ch) = None)
   \<and> (scan_leaves (Trunk ErrorNode r ch) = [] \<longrightarrow> syntax_issue h (Trunk ErrorNode r ch) = None)
   \<and> (syntax_issue h node = Some X
      \<longrightarrow> (\<exists>rest. record_syntax_issues h (Trunk k r' (pre @ Some node # post)) =
              Inr (record_loop h pre {} [] @
                   (if issue_line X \<in> set (map issue_line (candidates h pre)) then [] else [X])
                   @ rest)
            \<and> issue_line X \<notin> set (map issue_line rest)))
   \<and> (syntax_issue h node = None
      \<longrightarrow> record_syntax_issues h (Trunk k r' (pre @ Some node # post)) =
            record_syntax_issues h (Trunk k r' (pre @ post)))"
proof (intro conjI impI)
  assume "syntax_issue h node = Some X"
  from record_loop_node [OF this, of pre post]
  show "\<exists>rest. record_syntax_issues h (Trunk k r' (pre @ Some node # post)) =
              Inr (record_loop h pre {} [] @
                   (if issue_line X \<in> set (map issue_line (candidates h pre)) then [] else [X])
                   @ rest)
            \<and> issue_line X \<notin> set (map issue_line rest)"
    by (simp add: record_syntax_issues_def)
next
  assume "syntax_issue h node = None"
  from record_loop_silent [OF this, of pre post]
  show "record_syntax_issues h (Trunk k r' (pre @ Some node # post)) =
            record_syntax_issues h (Trunk k r' (pre @ post))"
    by (simp add: record_syntax_issues_def)
next
  show "last_leaf (Trunk ErrorNode r ch)
        = (if scan_leaves (Trunk ErrorNode r ch) = [] then None
           else Some (last (scan_leaves (Trunk ErrorNode r ch))))"
    using last_leaf_scan(1) [of "Trunk ErrorNode r ch"] by simp
next
  assume "scan_leaves (Trunk ErrorNode r ch) \<noteq> []
        \<and> next_ptr h (leaf_id (last (scan_leaves (Trunk ErrorNode r ch)))) = None"
  then show "syntax_issue h (Trunk ErrorNode r ch)
            = Some (UnexpectedEOFIssue (leaf_range (last (scan_leaves (Trunk ErrorNode r ch)))))"
    using last_leaf_scan(1) [of "Trunk ErrorNode r ch"]
    by (simp add: syntax_issue_def del: last_leaf.simps)
next
  assume "scan_leaves (Trunk ErrorNode r ch) \<noteq> []
        \<and> next_ptr h (leaf_id (last (scan_leaves (Trunk ErrorNode r ch)))) \<noteq> None"
  then show "syntax_issue h (Trunk ErrorNode r ch) = None"
    using last_leaf_scan(1) [of "Trunk ErrorNode r ch"]
    by (auto simp: syntax_issue_def simp del: last_leaf.simps)
next
  assume "scan_leaves (Trunk ErrorNode r ch) = []"
  then show "syntax_issue h (Trunk ErrorNode r ch) = None"
    using last_leaf_scan(1) [of "Trunk ErrorNode r ch"]
    by (simp add: syntax_issue_def del: last_leaf.simps)
qed (simp_all add: syntax_issue_def)

section \<open>The examples, built and linked\<close>

lemma TREE_MAP_values:
  "TREE_MAP ''root'' = Some (TrunkClass FileNode)"
  "TREE_MAP ''error_node'' = Some (TrunkClass ErrorNode)"
  "TREE_MAP ''NAME'' = Some (LeafClass Name)"
  "TREE_MAP ''EQUAL'' = Some (LeafClass Operator)"
  "TREE_MAP ''ERROR_TOKEN'' = Some (LeafClass ErrorToken)"
  by (simp_all add: TREE_MAP_def)

lemma ex_build_eof:
  "transform_tree (\<lambda>p. p) (\<lambda>p. p) 0 (Some ex_lark_eof) = Inr (Some ex_root_eof, 2)"
  by (simp add: ex_lark_eof_def ex_root_eof_def TREE_MAP_values ex_leaf_a_def ex_leaf_eq_def)

lemma ex_scan_eof: "scan_leaves ex_root_eof = [ex_leaf_a, ex_leaf_eq]"
  by (simp add: ex_root_eof_def)

lemma ex_ptrs_eof:
  "set_leaf_pointers (Some ex_root_eof) None Links_init = (Some ex_leaf_eq, ex_links_eof)"
  by (simp add: ex_links_eof_def ex_root_eof_def Let_def)

theorem leaf_chain_complete_witness:
  "transform_tree (\<lambda>p. p) (\<lambda>p. p) 0 (Some ex_lark_eof) = Inr (Some ex_root_eof, 2)
   \<and> set_leaf_pointers (Some ex_root_eof) None Links_init = (Some ex_leaf_eq, ex_links_eof)
   \<and> scan_leaves ex_root_eof = [ex_leaf_a, ex_leaf_eq]
   \<and> next_ptr ex_links_eof (leaf_id ex_leaf_a) = Some ex_leaf_eq
   \<and> next_ptr ex_links_eof (leaf_id ex_leaf_eq) = None
   \<and> prev_ptr ex_links_eof (leaf_id ex_leaf_eq) = Some ex_leaf_a
   \<and> prev_ptr ex_links_eof (leaf_id ex_leaf_a) = None
   \<and> walk (next_ptr ex_links_eof) ex_leaf_a = Some [ex_leaf_a, ex_leaf_eq]
   \<and> walk (prev_ptr ex_links_eof) ex_leaf_eq = Some [ex_leaf_eq, ex_leaf_a]"
proof -
  note c = leaf_chain_complete [OF ex_build_eof ex_ptrs_eof ex_scan_eof [symmetric]]
  from c have n: "\<forall>j<2. next_ptr ex_links_eof (leaf_id ([ex_leaf_a, ex_leaf_eq] ! j))
              = (if j + 1 < 2 then Some ([ex_leaf_a, ex_leaf_eq] ! (j + 1)) else None)"
    and p: "\<forall>j<2. prev_ptr ex_links_eof (leaf_id ([ex_leaf_a, ex_leaf_eq] ! j))
              = (if j = 0 then None else Some ([ex_leaf_a, ex_leaf_eq] ! (j - 1)))"
    and w: "walk (next_ptr ex_links_eof) ex_leaf_a = Some [ex_leaf_a, ex_leaf_eq]"
      "walk (prev_ptr ex_links_eof) ex_leaf_eq = Some [ex_leaf_eq, ex_leaf_a]"
    by simp_all
  from n [rule_format, of 0] n [rule_format, of 1] p [rule_format, of 0] p [rule_format, of 1]
  have "next_ptr ex_links_eof (leaf_id ex_leaf_a) = Some ex_leaf_eq"
    "next_ptr ex_links_eof (leaf_id ex_leaf_eq) = None"
    "prev_ptr ex_links_eof (leaf_id ex_leaf_eq) = Some ex_leaf_a"
    "prev_ptr ex_links_eof (leaf_id ex_leaf_a) = None"
    by simp_all
  with w ex_build_eof ex_ptrs_eof ex_scan_eof show ?thesis by simp
qed

lemma strip_empty_q: "\<not> strip_empty ''?''" "\<not> strip_empty ''!''"
  by (simp_all add: strip_empty_def is_space_def)

lemma ex_build_q:
  "transform_tree (\<lambda>p. p) (\<lambda>p. p) 0 (Some ex_lark_q) = Inr (Some ex_root_q, 3)"
  by (simp add: ex_lark_q_def ex_root_q_def ex_node_q_def TREE_MAP_values ex_leaf_q_def
      ex_leaf_a2_def ex_leaf_eq2_def)

lemma ex_last_leaf_q: "last_leaf ex_node_q = Some ex_leaf_eq2"
  by (simp add: ex_node_q_def)

lemma ex_next_q: "next_ptr ex_links_q (leaf_id ex_leaf_eq2) = None"
  by (simp add: ex_links_q_def ex_root_q_def ex_node_q_def Let_def Links_init_def
      ex_leaf_q_def ex_leaf_a2_def ex_leaf_eq2_def)

text \<open>
  For the text \<^verbatim>\<open>? a =\<close> the ErrorNode ends the file (its last leaf has no next
  leaf), yet the pass records the unexpected token only: the end-of-input issue starts on
  a line that already has an issue.
\<close>

theorem eof_issue_suppressed:
  "transform_tree (\<lambda>p. p) (\<lambda>p. p) 0 (Some ex_lark_q) = Inr (Some ex_root_q, 3)
   \<and> ex_root_q = Trunk FileNode (rg 1 1 1 6) [Some (Leaf ex_leaf_q), Some ex_node_q]
   \<and> ex_node_q = Trunk ErrorNode (rg 1 3 1 6) [Some (Leaf ex_leaf_a2), Some (Leaf ex_leaf_eq2)]
   \<and> last_leaf ex_node_q = Some ex_leaf_eq2
   \<and> next_ptr (snd (set_leaf_pointers (Some ex_root_q) None Links_init)) (leaf_id ex_leaf_eq2) = None
   \<and> record_syntax_issues (snd (set_leaf_pointers (Some ex_root_q) None Links_init)) ex_root_q
        = Inr [UnexpectedTokenIssue (rg 1 1 1 2) ''?'']"
proof -
  have "syntax_issue ex_links_q ex_node_q = Some (UnexpectedEOFIssue (rg 1 5 1 6))"
    using ex_last_leaf_q ex_next_q by (simp add: syntax_issue_def ex_node_q_def ex_leaf_eq2_def)
  moreover have "syntax_issue ex_links_q (Leaf ex_leaf_q) = Some (UnexpectedTokenIssue (rg 1 1 1 2) ''?'')"
    by (simp add: syntax_issue_def ex_leaf_q_def strip_empty_q)
  ultimately have "record_syntax_issues ex_links_q ex_root_q
        = Inr [UnexpectedTokenIssue (rg 1 1 1 2) ''?'']"
    by (simp add: record_syntax_issues_def ex_root_q_def issue_line_def rg_def)
  with ex_build_q ex_last_leaf_q ex_next_q show ?thesis
    by (simp add: ex_links_q_def ex_root_q_def ex_node_q_def)
qed

theorem one_syntax_issue_per_line_witness:
  "leaf_kind ex_leaf_q = ErrorToken
   \<and> leaf_kind (LeafNode 1 ErrorToken (rg 1 3 1 4) ''!'') = ErrorToken
   \<and> \<not> strip_empty (leaf_text ex_leaf_q)
   \<and> \<not> strip_empty (leaf_text (LeafNode 1 ErrorToken (rg 1 3 1 4) ''!''))
   \<and> record_syntax_issues Links_init
        (Trunk FileNode (rg 1 1 1 4)
           [Some (Leaf ex_leaf_q), Some (Leaf (LeafNode 1 ErrorToken (rg 1 3 1 4) ''!''))])
        = Inr [UnexpectedTokenIssue (rg 1 1 1 2) ''?'']"
proof -
  let ?t2 = "LeafNode 1 ErrorToken (rg 1 3 1 4) ''!''"
  note t = one_syntax_issue_per_line [where ?t1.0 = ex_leaf_q and ?t2.0 = ?t2
      and h = Links_init and k = FileNode and r = "rg 1 1 1 4" and ch = "[]"
      and L = 1 and pre = "[]" and mid = "[]" and post = "[]"]
  have a: "leaf_kind ex_leaf_q = ErrorToken \<and> leaf_kind ?t2 = ErrorToken
        \<and> \<not> strip_empty (leaf_text ex_leaf_q) \<and> \<not> strip_empty (leaf_text ?t2)
        \<and> line (start (leaf_range ex_leaf_q)) = 1 \<and> line (start (leaf_range ?t2)) = 1
        \<and> (1 :: int) \<notin> set (map issue_line (candidates Links_init []))"
    by (simp add: ex_leaf_q_def strip_empty_q rg_def)
  from t a obtain res where
    r: "record_syntax_issues Links_init
          (Trunk FileNode (rg 1 1 1 4) ([] @ Some (Leaf ex_leaf_q) # [] @ Some (Leaf ?t2) # [])) = Inr res"
    and f: "filter (\<lambda>i. issue_line i = 1) res
              = [UnexpectedTokenIssue (leaf_range ex_leaf_q) (leaf_text ex_leaf_q)]"
    by blast
  have e: "record_syntax_issues Links_init
        (Trunk FileNode (rg 1 1 1 4) [Some (Leaf ex_leaf_q), Some (Leaf ?t2)])
        = Inr [UnexpectedTokenIssue (rg 1 1 1 2) ''?'']"
    using a by (simp add: record_syntax_issues_def syntax_issue_def issue_line_def ex_leaf_q_def rg_def)
  with a r f show ?thesis by simp
qed

section \<open>The position query\<close>

lemma find_child_within: "find_child pos ch = Some c \<Longrightarrow> within_range pos c \<and> Some c \<in> set ch"
  by (induction pos ch rule: find_child.induct) (auto split: if_splits)

lemma get_qname_loop_base:
  "get_qname_loop str pos node None None = Inr (Some q) \<Longrightarrow>
     scope q = BaseScope \<and> (\<exists>l. qname_name q = Some (Leaf l) \<and> (node = Leaf l \<or> within_range pos (Leaf l)))"
proof (induction str pos node "None :: LeafNode option" "None :: LeafNode option"
       rule: get_qname_loop.induct)
  case (1 str pos l)
  then show ?case by auto
next
  case (2 str pos k r ch)
  from "2.prems" have k: "k \<noteq> ModelNode" "k \<noteq> FunctionNode"
    by (auto simp: Model_get_name_def Function_get_name_def split: if_splits)
  with "2.prems" obtain child where c: "find_child pos ch = Some child"
    and g: "get_qname_loop str pos child None None = Inr (Some q)"
    by (auto split: option.splits)
  from "2.hyps" [OF _ _ c] k g
  have s: "scope q = BaseScope"
    and "\<exists>l. qname_name q = Some (Leaf l) \<and> (child = Leaf l \<or> within_range pos (Leaf l))"
    by auto
  then obtain l where l: "qname_name q = Some (Leaf l)" "child = Leaf l \<or> within_range pos (Leaf l)"
    by blast
  from find_child_within [OF c] l have "within_range pos (Leaf l)" by auto
  with s l show ?case by auto
qed


lemma get_qname_model:
  "k = ModelNode \<or> k = FunctionNode \<Longrightarrow> get_qname_loop str pos (Trunk k r ch) None None = Inl AssertionError"
  by (auto simp: Model_get_name_def Function_get_name_def)

text \<open>
  Claim C5, as amended.  The query descends from the root into the first child that holds
  the position.  A result is always a leaf in \<^verbatim>\<open>BaseScope\<close>, and unless the root is
  that leaf the leaf holds the position; a leaf root is returned as it is; a trunk none of
  whose children holds the position gives \<^verbatim>\<open>None\<close>; and at a \<^verbatim>\<open>Model\<close> or
  \<^verbatim>\<open>Function\<close> node the query fails with an assertion error.
\<close>

theorem get_qname_at_position_base:
  "(get_qname_at_position str root pos = Inr (Some q)
      \<longrightarrow> scope q = BaseScope
          \<and> (\<exists>l. qname_name q = Some (Leaf l) \<and> (root = Leaf l \<or> within_range pos (Leaf l))))
   \<and> get_qname_at_position str (Leaf l) pos = Inr (Some (QName BaseScope (Some (Leaf l))))
   \<and> (k \<noteq> ModelNode \<and> k \<noteq> FunctionNode \<and> find_child pos ch = None
      \<longrightarrow> get_qname_at_position str (Trunk k r ch) pos = Inr None)
   \<and> (k \<noteq> ModelNode \<and> k \<noteq> FunctionNode \<and> find_child pos ch = Some child
      \<longrightarrow> get_qname_at_position str (Trunk k r ch) pos = get_qname_at_position str child pos)
   \<and> (k = ModelNode \<or> k = FunctionNode
      \<longrightarrow> get_qname_at_position str (Trunk k r ch) pos = Inl AssertionError)"
  using get_qname_loop_base [of str pos root q] get_qname_model [of k str pos r ch]
  by (auto simp: get_qname_at_position_def)

text \<open>
  In the tree of \<^verbatim>\<open>model m; S1 -> S2; k1*S1; end\<close> the positions in \<^verbatim>\<open>S1\<close> and in
  \<^verbatim>\<open>m\<close> both end in the assertion error of \<^verbatim>\<open>Model.get_name\<close>; and the tree builder
  knows no rule \<^verbatim>\<open>model\<close>.
\<close>

theorem model_scope_not_resolved:
  "within_range (SrcPosition 1 10) (Leaf ex_leaf_S1)
   \<and> within_range (SrcPosition 1 7) (Leaf ex_leaf_m)
   \<and> get_qname_at_position leaf_text ex_root_model (SrcPosition 1 10) = Inl AssertionError
   \<and> get_qname_at_position leaf_text ex_root_model (SrcPosition 1 7) = Inl AssertionError
   \<and> TREE_MAP ''model'' = None"
  by (simp add: get_qname_at_position_def ex_root_model_def within_range_def pos_ge_def pos_lt_def
      rg_def Model_get_name_def TREE_MAP_def ex_leaf_m_def ex_leaf_S1_def)

theorem get_qname_at_position_base_witness:
  "get_qname_at_position leaf_text ex_root_eof (SrcPosition 1 3)
     = Inr (Some (QName BaseScope (Some (Leaf ex_leaf_eq))))
   \<and> scope (QName BaseScope (Some (Leaf ex_leaf_eq))) = BaseScope
   \<and> within_range (SrcPosition 1 3) (Leaf ex_leaf_eq)
   \<and> find_child (SrcPosition 1 2) [Some (Leaf ex_leaf_a), Some (Leaf ex_leaf_eq)] = None
   \<and> get_qname_at_position leaf_text
        (Trunk ErrorNode (rg 1 1 1 4) [Some (Leaf ex_leaf_a), Some (Leaf ex_leaf_eq)]) (SrcPosition 1 2)
       = Inr None"
proof -
  have e: "get_qname_at_position leaf_text ex_root_eof (SrcPosition 1 3)
     = Inr (Some (QName BaseScope (Some (Leaf ex_leaf_eq))))"
    by (simp add: get_qname_at_position_def ex_root_eof_def within_range_def pos_ge_def pos_lt_def
      rg_def ex_leaf_a_def ex_leaf_eq_def)
  have f: "find_child (SrcPosition 1 2) [Some (Leaf ex_leaf_a), Some (Leaf ex_leaf_eq)] = None"
    by (simp add: within_range_def pos_ge_def pos_lt_def rg_def ex_leaf_a_def ex_leaf_eq_def)
  note t = get_qname_at_position_base [where str = leaf_text and root = ex_root_eof
      and pos = "SrcPosition 1 3" and q = "QName BaseScope (Some (Leaf ex_leaf_eq))"]
  from t e have "scope (QName BaseScope (Some (Leaf ex_leaf_eq))) = BaseScope
      \<and> (\<exists>l. qname_name (QName BaseScope (Some (Leaf ex_leaf_eq))) = Some (Leaf l)
             \<and> (ex_root_eof = Leaf l \<or> within_range (SrcPosition 1 3) (Leaf l)))"
    by blast
  then have w: "within_range (SrcPosition 1 3) (Leaf ex_leaf_eq)"
    by (auto simp: ex_root_eof_def)
  note u = get_qname_at_position_base [where str = leaf_text and k = ErrorNode
      and pos = "SrcPosition 1 2" and ch = "[Some (Leaf ex_leaf_a), Some (Leaf ex_leaf_eq)]"
      and r = "rg 1 1 1 4"]
  from u f have "get_qname_at_position leaf_text
        (Trunk ErrorNode (rg 1 1 1 4) [Some (Leaf ex_leaf_a), Some (Leaf ex_leaf_eq)]) (SrcPosition 1 2)
       = Inr None"
    by simp
  with e w f show ?thesis by simp
qed


section \<open>The analyzer\<close>

lemma ebind_Inr: "(ebind m f = Inr y) = (\<exists>x. m = Inr x \<and> f x = Inr y)"
  by (cases m) (simp_all add: ebind_def)

lemma foldM_inv:
  assumes step: "\<And>x s s'. P s \<Longrightarrow> f x s = Inr s' \<Longrightarrow> P s'"
  shows "P s \<Longrightarrow> foldM f xs s = Inr s' \<Longrightarrow> P s'"
proof (induction xs arbitrary: s)
  case Nil
  then show ?case by simp
next
  case (Cons x xs)
  from Cons.prems(2) obtain s1 where s1: "f x s = Inr s1" "foldM f xs s1 = Inr s'"
    by (auto simp: ebind_Inr)
  from step [OF Cons.prems(1) s1(1)] have "P s1" .
  from Cons.IH [OF this s1(2)] show ?case .
qed

lemma list_all_update:
  "list_all (\<lambda>e. fst e = k) al \<Longrightarrow> list_all (\<lambda>e. fst e = k) (AList.update k v al)"
  by (induction al) auto

lemma only_scope_leaf_table:
  "only_scope sc t \<Longrightarrow> leaf_table t sc = (d, t') \<Longrightarrow> only_scope sc t'"
  by (auto simp: only_scope_def leaf_table_def split: option.splits)

lemma only_scope_store: "only_scope sc t \<Longrightarrow> only_scope sc (store_symbol t sc n s)"
  by (simp add: only_scope_def store_symbol_def list_all_update)

lemma only_scope_issues: "only_scope sc (t\<lparr>issues := i\<rparr>) = only_scope sc t"
  by (simp add: only_scope_def)

lemma only_scope_insert:
  assumes "only_scope sc t" and "SymbolTable_insert t (QName sc nm) typ dn vn = Inr t'"
  shows "only_scope sc t'"
proof -
  let ?t1 = "t\<lparr>qnames := qnames t @ [QName sc nm]\<rparr>"
  have o1: "only_scope sc ?t1" using assms(1) by (simp add: only_scope_def)
  obtain d t2 where lt: "leaf_table ?t1 sc = (d, t2)" by (cases "leaf_table ?t1 sc")
  from only_scope_leaf_table [OF o1 lt] have o2: "only_scope sc t2" .
  from assms(2) lt o2 show ?thesis
    by (auto simp: SymbolTable_insert_def Let_def only_scope_store only_scope_issues
        split: option.splits TreeNode.splits sum.splits if_splits)
qed

lemma only_scope_insert_annotation:
  assumes "only_scope sc t" and "insert_annotation t (QName sc nm) node = Inr t'"
  shows "only_scope sc t'"
proof -
  obtain d t1 where lt: "leaf_table t sc = (d, t1)" by (cases "leaf_table t sc")
  from only_scope_leaf_table [OF assms(1) lt] have "only_scope sc t1" .
  with assms(2) lt show ?thesis
    by (auto simp: insert_annotation_def Let_def only_scope_store
        split: option.splits TreeNode.splits)
qed

lemma only_scope_handle_child_incomp:
  assumes "only_scope sc t" and "handle_child_incomp t sc node = Inr t'"
  shows "only_scope sc t'"
proof (cases node)
  case (Leaf l)
  with assms(2) show ?thesis by (simp add: handle_child_incomp_def)
next
  case (Trunk k0 r0 ch0)
  with assms(2) have f: "foldM (\<lambda>child t.
                   case child of
                     Leaf l \<Rightarrow> Inr t
                   | Trunk k r ch \<Rightarrow>
                       if k = InComp then
                         ebind (index ch 1) (\<lambda>comp.
                         ebind (get_name comp) (\<lambda>nm.
                           SymbolTable_insert t (QName sc nm) Compartment None None))
                       else Inr t)
            (descendants node) t = Inr t'"
    by (simp add: handle_child_incomp_def)
  show ?thesis
    by (rule foldM_inv [where P = "only_scope sc", OF _ assms(1) f])
       (auto simp: ebind_Inr split: TreeNode.splits if_splits dest: only_scope_insert)
qed

lemma only_scope_handle_arith_expr:
  assumes "only_scope sc t" and "handle_arith_expr t sc v = Inr t'"
  shows "only_scope sc t'"
proof (cases "(t, sc, v)" rule: handle_arith_expr.cases)
  case (4 self sc' k r ch)
  with assms(2) have f: "foldM (\<lambda>leaf t.
              if leaf_kind leaf = Name
              then SymbolTable_insert t (QName sc (Some (Leaf leaf))) Parameter None None
              else Inr t)
       (scan_leaves (Trunk k r ch)) t = Inr t'"
    by auto
  show ?thesis
    by (rule foldM_inv [where P = "only_scope sc", OF _ assms(1) f]) (auto split: if_splits dest: only_scope_insert)
qed (use assms in \<open>auto split: if_splits dest: only_scope_insert\<close>)

lemma only_scope_handle_reaction:
  assumes "only_scope sc t" and "handle_reaction t sc reaction = Inr t'"
  shows "only_scope sc t'"
proof -
  from assms(2) obtain nm t1 xs t2 rl where
    a: "(if nm \<noteq> None then SymbolTable_insert t (QName sc nm) Reaction (Some reaction) None
         else Inr t) = Inr t1"
    and f: "foldM (\<lambda>species t.
                     ebind (get_name species) (\<lambda>sn.
                       SymbolTable_insert t (QName sc sn) Species None None)) xs t1 = Inr t2"
    and h: "handle_arith_expr t2 sc (NodeValue rl) = Inr t'"
    unfolding handle_reaction_def ebind_Inr by blast
  from a assms(1) have o1: "only_scope sc t1"
    by (auto split: if_splits dest: only_scope_insert)
  have o2: "only_scope sc t2"
    by (rule foldM_inv [where P = "only_scope sc", OF _ o1 f]) (auto simp: ebind_Inr dest: only_scope_insert)
  from only_scope_handle_arith_expr [OF o2 h] show ?thesis .
qed

lemma only_scope_handle_assignment:
  assumes "only_scope sc t" and "handle_assignment fl t sc a = Inr t'"
  shows "only_scope sc t'"
  using assms unfolding handle_assignment_def ebind_Inr
  by (blast dest: only_scope_insert only_scope_handle_arith_expr)

lemma only_scope_handle_annotation:
  assumes "only_scope sc t" and "handle_annotation t sc a = Inr t'"
  shows "only_scope sc t'"
  using assms unfolding handle_annotation_def ebind_Inr
  by (blast dest: only_scope_insert only_scope_insert_annotation)

lemma only_scope_handle_declaration:
  assumes "only_scope sc t" and "handle_declaration fl t sc decl = Inr t'"
  shows "only_scope sc t'"
proof -
  from assms(2) obtain xs stype where
    f: "foldM (\<lambda>item t.
                ebind (get_maybein item) (\<lambda>mb.
                ebind (get_var_name mb) (\<lambda>vn.
                ebind (get_name vn) (\<lambda>nm.
                ebind (get_value fl item) (\<lambda>v.
                ebind (SymbolTable_insert t (QName sc nm) stype (Some decl)
                         (if truthy v then item else None)) (\<lambda>t1.
                  if truthy v then handle_arith_expr t1 sc v else Inr t1))))))
         xs t = Inr t'"
    unfolding handle_declaration_def ebind_Inr by blast
  show ?thesis
  proof (rule foldM_inv [where P = "only_scope sc", OF _ assms(1) f])
    fix item s s'
    assume s: "only_scope sc s"
      and e: "ebind (get_maybein item) (\<lambda>mb.
                ebind (get_var_name mb) (\<lambda>vn.
                ebind (get_name vn) (\<lambda>nm.
                ebind (get_value fl item) (\<lambda>v.
                ebind (SymbolTable_insert s (QName sc nm) stype (Some decl)
                         (if truthy v then item else None)) (\<lambda>t1.
                  if truthy v then handle_arith_expr t1 sc v else Inr t1))))) = Inr s'"
    from e obtain nm v t1 where
      i: "SymbolTable_insert s (QName sc nm) stype (Some decl) (if truthy v then item else None) = Inr t1"
      and r: "(if truthy v then handle_arith_expr t1 sc v else Inr t1) = Inr s'"
      unfolding ebind_Inr by blast
    from only_scope_insert [OF s i] have "only_scope sc t1" .
    with r show "only_scope sc s'"
      by (auto split: if_splits dest: only_scope_handle_arith_expr)
  qed
qed

lemma only_scope_dispatch:
  assumes "only_scope sc t"
      and "(if k' = ReactionNode then handle_reaction t sc stmt
            else if k' = Assignment then handle_assignment fl t sc stmt
            else if k' = Declaration then handle_declaration fl t sc stmt
            else if k' = Annotation then handle_annotation t sc stmt
            else Inl KeyError) = Inr t1"
  shows "only_scope sc t1"
  using assms
  by (auto split: if_splits
      dest: only_scope_handle_reaction only_scope_handle_assignment
        only_scope_handle_declaration only_scope_handle_annotation)

lemma only_scope_analyze_child:
  assumes o: "only_scope sc t" and a: "analyze_child fl sc child t = Inr t'"
  shows "only_scope sc t'"
proof (cases child)
  case None
  with a o show ?thesis by (simp add: analyze_child_def)
next
  case (Some node)
  show ?thesis
  proof (cases node)
    case (Leaf l)
    with a o Some show ?thesis by (simp add: analyze_child_def)
  next
    case (Trunk k r ch)
    show ?thesis
    proof (cases "k = SimpleStmt")
      case False
      with a o Some Trunk show ?thesis by (simp add: analyze_child_def split: if_splits)
    next
      case True
      with a Some Trunk obtain stmt where st: "index ch 0 = Inr stmt"
        and b: "(case stmt of
                None \<Rightarrow> Inr t
              | Some (Leaf l) \<Rightarrow> Inl KeyError
              | Some (Trunk k' r' ch') \<Rightarrow>
                  ebind (if k' = ReactionNode then handle_reaction t sc (Trunk k' r' ch')
                         else if k' = Assignment then handle_assignment fl t sc (Trunk k' r' ch')
                         else if k' = Declaration then handle_declaration fl t sc (Trunk k' r' ch')
                         else if k' = Annotation then handle_annotation t sc (Trunk k' r' ch')
                         else Inl KeyError) (\<lambda>t1.
                    handle_child_incomp t1 sc (Trunk k' r' ch'))) = Inr t'"
        by (auto simp: analyze_child_def ebind_Inr)
      show ?thesis
      proof (cases stmt)
        case None
        with b o show ?thesis by simp
      next
        case s: (Some sn)
        show ?thesis
        proof (cases sn)
          case (Leaf l)
          with b s show ?thesis by simp
        next
          case t: (Trunk k' r' ch')
          with b s obtain t1 where
            d: "(if k' = ReactionNode then handle_reaction t sc (Trunk k' r' ch')
                 else if k' = Assignment then handle_assignment fl t sc (Trunk k' r' ch')
                 else if k' = Declaration then handle_declaration fl t sc (Trunk k' r' ch')
                 else if k' = Annotation then handle_annotation t sc (Trunk k' r' ch')
                 else Inl KeyError) = Inr t1"
            and i: "handle_child_incomp t1 sc (Trunk k' r' ch') = Inr t'"
            by (auto simp: ebind_Inr)
          from only_scope_dispatch [OF o d] have "only_scope sc t1" .
          from only_scope_handle_child_incomp [OF this i] show ?thesis .
        qed
      qed
    qed
  qed
qed

lemma ex_decl_step:
  "handle_declaration fl SymbolTable_init BaseScope ex_declaration =
     Inr \<lparr>table = [(BaseScope, [(''A'', ex_symbol_A\<lparr>value_node := Some ex_decl_item\<rparr>)])],
          issues = [], qnames = [QName BaseScope (Some (Leaf ex_name_A1))]\<rparr>"
  by (simp add: handle_declaration_def ex_declaration_def ebind_def index_def ex_decl_item_def
      SymbolTable_insert_def SymbolTable_init_def leaf_table_def store_symbol_def Let_def
      VarSymbol_def ex_symbol_A_def ex_name_A1_def)

lemma ex_incomp_decl: "handle_child_incomp t BaseScope ex_declaration = Inr t"
  by (simp add: handle_child_incomp_def ex_declaration_def ex_decl_item_def ebind_def)

lemma ex_incomp_assignment: "handle_child_incomp t BaseScope ex_assignment = Inr t"
  by (simp add: handle_child_incomp_def ex_assignment_def ebind_def)

lemma ex_assignment_step:
  "handle_assignment fl ex_table_decl BaseScope ex_assignment = Inr ex_table_final"
proof -
  have n: "get_name (Some ex_assignment) = Inr (Some (Leaf ex_name_A2))"
    by (simp add: ex_assignment_def index_def)
  have v: "get_value fl (Some ex_assignment)
             = Inr (NodeValue (Some (Leaf (LeafNode 8 Number (rg 1 26 1 28) ''10''))))"
    by (simp add: ex_assignment_def index_def)
  have r: "node_range ex_decl_item = rg 1 15 1 20" "node_range ex_assignment = rg 1 22 1 28"
    by (simp_all add: ex_decl_item_def ex_assignment_def)
  have i: "SymbolTable_insert ex_table_decl (QName BaseScope (Some (Leaf ex_name_A2))) Parameter
             None (Some ex_assignment) = Inr ex_table_final"
    using r
    by (simp add: SymbolTable_insert_def ex_table_decl_def ex_table_final_def leaf_table_def
        store_symbol_def Let_def ex_symbol_A_def ex_name_A2_def derives_from_def
        derives_from_param_def)
  show ?thesis
    using n v i by (simp add: handle_assignment_def ebind_def)
qed

lemma ex_analysis:
  "AntTreeAnalyzer fl h ex_root_decl =
     Inr \<lparr>an_table = ex_table_final, an_root = ex_root_decl,
          semantic_issues = [ObscuredValue (rg 1 15 1 20) (rg 1 22 1 28) ''A''],
          syntax_issues = []\<rparr>"
proof -
  have d: "\<And>t r x. analyze_child fl BaseScope (Some (Trunk SimpleStmt r [Some ex_declaration, x])) t
             = ebind (handle_declaration fl t BaseScope ex_declaration)
                 (\<lambda>t1. handle_child_incomp t1 BaseScope ex_declaration)"
    unfolding ex_declaration_def by (simp add: analyze_child_def index_def ebind_def)
  have a: "\<And>t r x. analyze_child fl BaseScope (Some (Trunk SimpleStmt r [Some ex_assignment, x])) t
             = ebind (handle_assignment fl t BaseScope ex_assignment)
                 (\<lambda>t1. handle_child_incomp t1 BaseScope ex_assignment)"
    unfolding ex_assignment_def by (simp add: analyze_child_def index_def ebind_def)
  have c1: "analyze_child fl BaseScope
              (Some (Trunk SimpleStmt (rg 1 1 1 21)
                [Some ex_declaration, Some (Leaf (LeafNode 5 Operator (rg 1 20 1 21) '';''))]))
              SymbolTable_init = Inr ex_table_decl"
    using ex_decl_step [of fl] ex_incomp_decl [of ex_table_decl]
    by (simp add: d ebind_def ex_table_decl_def)
  have c2: "analyze_child fl BaseScope
              (Some (Trunk SimpleStmt (rg 1 22 1 29)
                [Some ex_assignment, Some (Leaf (LeafNode 9 Operator (rg 1 28 1 29) '';''))]))
              ex_table_decl = Inr ex_table_final"
    using ex_assignment_step [of fl] ex_incomp_assignment [of ex_table_final]
    by (simp add: a ebind_def)
  have s: "record_syntax_issues h ex_root_decl = Inr []"
    by (simp add: record_syntax_issues_def ex_root_decl_def syntax_issue_def)
  show ?thesis
    using c1 c2 s
    by (simp add: AntTreeAnalyzer_def ebind_def ex_root_decl_def ex_table_final_def)
qed

text \<open>
  Claim C4.  When \<^verbatim>\<open>insert\<close> is called with a value node for a name whose symbol has a
  value node already, and the types are compatible, the call appends exactly one
  \<^verbatim>\<open>ObscuredValue\<close> issue with the old range, the new range and the name, and the
  symbol's value node is the new node afterwards.  The analysis of
  \<^verbatim>\<open>const species A = 5; A = 10;\<close> ends with the one symbol \<^verbatim>\<open>A\<close> of type Species,
  whose value node is the assignment (the second value), and with the single issue
  \<^verbatim>\<open>ObscuredValue\<close> from the declaration item to the assignment.
\<close>

theorem obscured_value_on_reassignment:
  "(qname_name qname = Some (Leaf lf)
      \<and> lookup self (scope qname) (leaf_text lf) = Some symb
      \<and> value_node symb = Some old
      \<and> (derives_from ty (type symb) \<or> derives_from (type symb) ty)
    \<longrightarrow> (\<exists>s' symb'. SymbolTable_insert self qname ty dn (Some vn) = Inr s'
            \<and> issues s' = issues self @ [ObscuredValue (node_range old) (node_range vn) (leaf_text lf)]
            \<and> issue_severity (ObscuredValue (node_range old) (node_range vn) (leaf_text lf)) = Warning
            \<and> lookup s' (scope qname) (leaf_text lf) = Some symb'
            \<and> value_node symb' = Some vn))
   \<and> (\<exists>a symb. AntTreeAnalyzer fl h ex_root_decl = Inr a
          \<and> table (an_table a) = [(BaseScope, [(''A'', symb)])]
          \<and> type symb = Species
          \<and> value_node symb = Some ex_assignment
          \<and> get_issues a = [ObscuredValue (node_range ex_decl_item) (node_range ex_assignment) ''A''])"
proof (intro conjI impI)
  assume a: "qname_name qname = Some (Leaf lf)
      \<and> lookup self (scope qname) (leaf_text lf) = Some symb
      \<and> value_node symb = Some old
      \<and> (derives_from ty (type symb) \<or> derives_from (type symb) ty)"
  obtain i k r n where lf: "lf = LeafNode i k r n" by (cases lf)
  from insert_old [of qname i k r n self symb ty dn "Some vn"] a lf
  show "\<exists>s' symb'. SymbolTable_insert self qname ty dn (Some vn) = Inr s'
            \<and> issues s' = issues self @ [ObscuredValue (node_range old) (node_range vn) (leaf_text lf)]
            \<and> issue_severity (ObscuredValue (node_range old) (node_range vn) (leaf_text lf)) = Warning
            \<and> lookup s' (scope qname) (leaf_text lf) = Some symb'
            \<and> value_node symb' = Some vn"
    by (auto simp: obscured_def)
next
  have r: "node_range ex_decl_item = rg 1 15 1 20" "node_range ex_assignment = rg 1 22 1 28"
    by (simp_all add: ex_decl_item_def ex_assignment_def)
  show "\<exists>a symb. AntTreeAnalyzer fl h ex_root_decl = Inr a
          \<and> table (an_table a) = [(BaseScope, [(''A'', symb)])]
          \<and> type symb = Species
          \<and> value_node symb = Some ex_assignment
          \<and> get_issues a = [ObscuredValue (node_range ex_decl_item) (node_range ex_assignment) ''A'']"
    using r by (simp add: ex_analysis get_issues_def ex_table_final_def ex_symbol_A_def)
qed

theorem obscured_value_on_reassignment_witness:
  "lookup ex_table_decl BaseScope ''A'' = Some (ex_symbol_A\<lparr>value_node := Some ex_decl_item\<rparr>)
   \<and> derives_from Species Parameter
   \<and> (\<exists>s' symb'. SymbolTable_insert ex_table_decl (QName BaseScope (Some (Leaf ex_name_A2)))
                     Parameter None (Some ex_assignment) = Inr s'
         \<and> issues s' = [ObscuredValue (rg 1 15 1 20) (rg 1 22 1 28) ''A'']
         \<and> lookup s' BaseScope ''A'' = Some symb'
         \<and> value_node symb' = Some ex_assignment)"
proof -
  have l: "lookup ex_table_decl BaseScope ''A'' = Some (ex_symbol_A\<lparr>value_node := Some ex_decl_item\<rparr>)"
    by (simp add: lookup_def ex_table_decl_def)
  have d: "derives_from Species Parameter"
    by (simp add: derives_from_def derives_from_param_def)
  have t: "type (ex_symbol_A\<lparr>value_node := Some ex_decl_item\<rparr>) = Species"
    "value_node (ex_symbol_A\<lparr>value_node := Some ex_decl_item\<rparr>) = Some ex_decl_item"
    by (simp_all add: ex_symbol_A_def)
  have n: "leaf_text ex_name_A2 = ''A''" by (simp add: ex_name_A2_def)
  have r: "node_range ex_decl_item = rg 1 15 1 20" "node_range ex_assignment = rg 1 22 1 28"
    by (simp_all add: ex_decl_item_def ex_assignment_def)
  have i: "issues ex_table_decl = []" by (simp add: ex_table_decl_def)
  note th = obscured_value_on_reassignment [where qname = "QName BaseScope (Some (Leaf ex_name_A2))"
      and lf = ex_name_A2 and self = ex_table_decl
      and symb = "ex_symbol_A\<lparr>value_node := Some ex_decl_item\<rparr>" and old = ex_decl_item
      and ty = Parameter and dn = None and vn = ex_assignment]
  from th l d t n r i show ?thesis by simp
qed

text \<open>
  Claim C10.  After the analyzer has been constructed, every logged qname has the scope
  \<^verbatim>\<open>BaseScope\<close>, the only key of the table is \<^verbatim>\<open>BaseScope\<close>, and no other scope holds
  a symbol.
\<close>

theorem analyzer_only_base_scope:
  assumes "AntTreeAnalyzer fl h root = Inr a"
  shows "(\<forall>q \<in> set (qnames (an_table a)). scope q = BaseScope)
       \<and> (\<forall>e \<in> set (table (an_table a)). fst e = BaseScope)
       \<and> (\<forall>sc n. sc \<noteq> BaseScope \<longrightarrow> lookup (an_table a) sc n = None)"
proof -
  from assms obtain ch t where f: "foldM (analyze_child fl BaseScope) ch SymbolTable_init = Inr t"
    and a: "an_table a = t"
    by (auto simp: AntTreeAnalyzer_def ebind_Inr)
  have o0: "only_scope BaseScope SymbolTable_init"
    by (simp add: only_scope_def SymbolTable_init_def)
  have o: "only_scope BaseScope t"
    by (rule foldM_inv [where P = "only_scope BaseScope", OF _ o0 f])
       (rule only_scope_analyze_child)
  then have q: "\<forall>q \<in> set (qnames t). scope q = BaseScope"
    and e: "\<forall>e \<in> set (table t). fst e = BaseScope"
    by (simp_all add: only_scope_def list_all_iff)
  have "\<forall>sc n. sc \<noteq> BaseScope \<longrightarrow> lookup t sc n = None"
  proof (intro allI impI)
    fix sc n assume "sc \<noteq> BaseScope"
    with e have "map_of (table t) sc = None"
      by (force simp: map_of_eq_None_iff)
    then show "lookup t sc n = None" by (simp add: lookup_def)
  qed
  with q e a show ?thesis by simp
qed

theorem analyzer_only_base_scope_witness:
  "AntTreeAnalyzer (\<lambda>s. Inr True) Links_init ex_root_decl =
     Inr \<lparr>an_table = ex_table_final, an_root = ex_root_decl,
          semantic_issues = [ObscuredValue (rg 1 15 1 20) (rg 1 22 1 28) ''A''],
          syntax_issues = []\<rparr>
   \<and> table ex_table_final = [(BaseScope, [(''A'', ex_symbol_A)])]
   \<and> list_all (\<lambda>q. scope q = BaseScope) (qnames ex_table_final)
   \<and> lookup ex_table_final (ModelScope ''m'') ''A'' = None
   \<and> lookup ex_table_final BaseScope ''A'' = Some ex_symbol_A"
proof -
  note t = analyzer_only_base_scope [OF ex_analysis [of "\<lambda>s. Inr True" Links_init]]
  from t have "\<forall>q \<in> set (qnames ex_table_final). scope q = BaseScope"
    and "lookup ex_table_final (ModelScope ''m'') ''A'' = None"
    by simp_all
  then show ?thesis
    using ex_analysis [of "\<lambda>s. Inr True" Links_init]
    by (simp add: list_all_iff) (simp add: ex_table_final_def lookup_def)
qed

section \<open>Further examples of the syntax issue pass\<close>

lemma TREE_MAP_values2:
  "TREE_MAP ''namemaybein'' = Some (TrunkClass NameMaybeIn)"
  "TREE_MAP ''var_name'' = Some (TrunkClass VarName)"
  "TREE_MAP ''species_list'' = Some (TrunkClass SpeciesList)"
  by (simp_all add: TREE_MAP_def)

lemma ex_build_nested:
  "transform_tree (\<lambda>p. p) (\<lambda>p. p) 0 (Some ex_lark_nested) = Inr (Some ex_root_nested, 2)"
  by (simp add: ex_lark_nested_def ex_root_nested_def ex_node_nested_def TREE_MAP_values
      TREE_MAP_values2 ex_leaf_J_def ex_leaf_b_def)

lemma ex_build_mid:
  "transform_tree (\<lambda>p. p) (\<lambda>p. p) 0 (Some ex_lark_mid) = Inr (Some ex_root_mid, 3)"
  by (simp add: ex_lark_mid_def ex_root_mid_def ex_node_mid_def TREE_MAP_values
      ex_leaf_a_def ex_leaf_eq_def ex_leaf_q3_def)

lemma ex_scan_nested: "scan_leaves ex_node_nested = [ex_leaf_J, ex_leaf_b]"
  by (simp add: ex_node_nested_def)

lemma ex_next_nested: "next_ptr ex_links_nested (leaf_id ex_leaf_b) = None"
  by (simp add: ex_links_nested_def ex_root_nested_def ex_node_nested_def Let_def Links_init_def
      ex_leaf_J_def ex_leaf_b_def)

lemma ex_scan_mid: "scan_leaves ex_node_mid = [ex_leaf_a, ex_leaf_eq]"
  by (simp add: ex_node_mid_def)

lemma ex_next_mid: "next_ptr ex_links_mid (leaf_id ex_leaf_eq) = Some ex_leaf_q3"
  by (simp add: ex_links_mid_def ex_root_mid_def ex_node_mid_def Let_def Links_init_def
      ex_leaf_a_def ex_leaf_eq_def ex_leaf_q3_def)

lemma strip_empty_blank: "strip_empty [CHR 0x0A]" "strip_empty [CHR 0xA0]"
  by (simp_all add: strip_empty_def is_space_def)

theorem syntax_issue_per_node_witness:
  "transform_tree (\<lambda>p. p) (\<lambda>p. p) 0 (Some ex_lark_nested) = Inr (Some ex_root_nested, 2)
   \<and> scan_leaves ex_node_nested = [ex_leaf_J, ex_leaf_b]
   \<and> last_leaf ex_node_nested = Some ex_leaf_b
   \<and> next_ptr ex_links_nested (leaf_id ex_leaf_b) = None
   \<and> syntax_issue ex_links_nested ex_node_nested = Some (UnexpectedEOFIssue (rg 1 3 1 4))
   \<and> record_syntax_issues ex_links_nested ex_root_nested = Inr [UnexpectedEOFIssue (rg 1 3 1 4)]
   \<and> transform_tree (\<lambda>p. p) (\<lambda>p. p) 0 (Some ex_lark_mid) = Inr (Some ex_root_mid, 3)
   \<and> next_ptr ex_links_mid (leaf_id ex_leaf_eq) = Some ex_leaf_q3
   \<and> syntax_issue ex_links_mid ex_node_mid = None
   \<and> record_syntax_issues ex_links_mid ex_root_mid = Inr [UnexpectedTokenIssue (rg 1 4 1 5) ''?'']
   \<and> strip_empty (leaf_text ex_leaf_nl)
   \<and> syntax_issue Links_init (Leaf ex_leaf_nl) = Some (UnexpectedNewlineIssue (SrcPosition 1 4))
   \<and> strip_empty (leaf_text ex_leaf_nbsp)
   \<and> syntax_issue Links_init (Leaf ex_leaf_nbsp) = Some (UnexpectedNewlineIssue (SrcPosition 3 1))"
proof -
  have nl: "leaf_kind ex_leaf_nl = ErrorToken" "strip_empty (leaf_text ex_leaf_nl)"
    by (simp_all add: ex_leaf_nl_def strip_empty_blank)
  have nb: "leaf_kind ex_leaf_nbsp = ErrorToken" "strip_empty (leaf_text ex_leaf_nbsp)"
    by (simp_all add: ex_leaf_nbsp_def strip_empty_blank)
  have q3: "leaf_kind ex_leaf_q3 = ErrorToken" "\<not> strip_empty (leaf_text ex_leaf_q3)"
    by (simp_all add: ex_leaf_q3_def strip_empty_q)
  note t1 = syntax_issue_per_node [where l = ex_leaf_nl and h = ex_links_nested
      and r = "rg 1 1 1 4"
      and ch = "[Some (Leaf ex_leaf_J),
                 Some (Trunk NameMaybeIn (rg 1 3 1 4)
                   [Some (Trunk VarName (rg 1 3 1 4) [None, Some (Leaf ex_leaf_b)]), None]),
                 Some (Trunk SpeciesList (rg 1 4 1 4) [])]"
      and node = ex_node_nested and X = "UnexpectedEOFIssue (rg 1 3 1 4)" and k = FileNode
      and r' = "rg 1 1 1 4" and pre = "[]" and post = "[]", folded ex_node_nested_def]
  from t1 ex_scan_nested have ll: "last_leaf ex_node_nested = Some ex_leaf_b" by simp
  from t1 ex_scan_nested ex_next_nested
  have si: "syntax_issue ex_links_nested ex_node_nested = Some (UnexpectedEOFIssue (rg 1 3 1 4))"
    by (simp add: ex_leaf_b_def)
  with t1 obtain rest where
    "record_syntax_issues ex_links_nested (Trunk FileNode (rg 1 1 1 4) ([] @ Some ex_node_nested # [])) =
       Inr (record_loop ex_links_nested [] {} [] @
             (if issue_line (UnexpectedEOFIssue (rg 1 3 1 4))
                   \<in> set (map issue_line (candidates ex_links_nested [])) then []
              else [UnexpectedEOFIssue (rg 1 3 1 4)]) @ rest)"
    by blast
  then have rec1: "record_syntax_issues ex_links_nested ex_root_nested
                     = Inr [UnexpectedEOFIssue (rg 1 3 1 4)]"
    using si by (simp add: ex_root_nested_def record_syntax_issues_def)
  note t2 = syntax_issue_per_node [where l = ex_leaf_q3 and h = ex_links_mid
      and r = "rg 1 1 1 4" and ch = "[Some (Leaf ex_leaf_a), Some (Leaf ex_leaf_eq)]"
      and node = "Leaf ex_leaf_q3" and X = "UnexpectedTokenIssue (rg 1 4 1 5) ''?''"
      and k = FileNode and r' = "rg 1 1 1 5" and pre = "[Some ex_node_mid]" and post = "[]",
      folded ex_node_mid_def]
  from t2 ex_scan_mid ex_next_mid
  have sm: "syntax_issue ex_links_mid ex_node_mid = None" by simp
  from t2 q3 have sq: "syntax_issue ex_links_mid (Leaf ex_leaf_q3)
                        = Some (UnexpectedTokenIssue (rg 1 4 1 5) ''?'')"
    by (simp add: ex_leaf_q3_def)
  have rec2: "record_syntax_issues ex_links_mid ex_root_mid
                = Inr [UnexpectedTokenIssue (rg 1 4 1 5) ''?'']"
    using sm sq by (simp add: ex_root_mid_def record_syntax_issues_def)
  from syntax_issue_per_node [where l = ex_leaf_nl and h = Links_init] nl
  have b1: "syntax_issue Links_init (Leaf ex_leaf_nl) = Some (UnexpectedNewlineIssue (SrcPosition 1 4))"
    by (simp add: ex_leaf_nl_def rg_def)
  from syntax_issue_per_node [where l = ex_leaf_nbsp and h = Links_init] nb
  have b2: "syntax_issue Links_init (Leaf ex_leaf_nbsp) = Some (UnexpectedNewlineIssue (SrcPosition 3 1))"
    by (simp add: ex_leaf_nbsp_def rg_def)
  from ex_build_nested ex_scan_nested ll ex_next_nested si rec1 ex_build_mid ex_next_mid sm rec2
    nl(2) b1 nb(2) b2
  show ?thesis by simp
qed

end
